theory Spec2Isabelle
  imports Complex_Main
begin

section \<open>Text primitives of the JavaScript runtime\<close>

text \<open>
  Text is modelled as \<^typ>\<open>string\<close>, one \<^typ>\<open>char\<close> per code unit (the Latin-1 range).
  The class \<open>\s\<close> of a JavaScript regular expression and the characters removed by
  \<open>String.prototype.trim\<close> are the same set; within this range it is TAB, LF, VT, FF, CR,
  SPACE and NBSP.
\<close>

definition is_space :: "char \<Rightarrow> bool" where
  "is_space c = (of_char c \<in> {9, 10, 11, 12, 13, 32, 160 :: nat})"

text \<open>\<open>s.trim()\<close>\<close>

definition trim :: "string \<Rightarrow> string" where
  "trim s = rev (dropWhile is_space (rev (dropWhile is_space s)))"

text \<open>
  \<open>s.replace(/pat/g, "")\<close> for a pattern \<open>pat\<close> of literal characters: one pass from the
  left, every occurrence found is dropped and the scan resumes after it.
\<close>

fun remove_all :: "string \<Rightarrow> string \<Rightarrow> string" where
  "remove_all pat [] = []"
| "remove_all pat (c # cs) =
     (if pat \<noteq> [] \<and> take (length pat) (c # cs) = pat
      then remove_all pat (drop (length pat - 1) cs)
      else c # remove_all pat cs)"

text \<open>
  \<open>s.split(/\s+/)\<close>: the pieces between maximal runs of whitespace. A string that starts
  (ends) with whitespace yields a leading (trailing) empty piece, and the empty string
  yields one empty piece.
\<close>

function split_from :: "string \<Rightarrow> string \<Rightarrow> string list" where
  "split_from cur [] = [cur]"
| "split_from cur (c # cs) =
     (if is_space c then cur # split_from [] (dropWhile is_space cs)
      else split_from (cur @ [c]) cs)"
  by pat_completeness auto
termination
proof (relation "measure (\<lambda>(cur, s). length s)")
  show "wf (measure (\<lambda>(cur, s). length s))" by simp
next
  fix cur :: string and c cs
  have "length (dropWhile is_space cs) \<le> length cs"
    by (rule length_dropWhile_le)
  then show "(([], dropWhile is_space cs), (cur, c # cs)) \<in> measure (\<lambda>(cur, s). length s)"
    by simp
next
  fix cur :: string and c cs
  show "((cur @ [c], cs), (cur, c # cs)) \<in> measure (\<lambda>(cur, s). length s)"
    by simp
qed

definition split_ws :: "string \<Rightarrow> string list" where
  "split_ws s = split_from [] s"

text \<open>\<open>text.split(/\s+/).filter(Boolean).length\<close>: the empty string is the only falsy string.\<close>

definition wordCount :: "string \<Rightarrow> nat" where
  "wordCount text = length (filter (\<lambda>t. t \<noteq> []) (split_ws text))"

text \<open>
  \<open>estimatePageCount\<close>: \<open>Math.ceil(wordCount / 250)\<close>. The quotient is taken in the
  rationals; for every word count a string can hold, the double-precision quotient has
  the same ceiling.
\<close>

definition estimatePageCount :: "string \<Rightarrow> nat" where
  "estimatePageCount text = nat \<lceil>(of_nat (wordCount text) :: rat) / 250\<rceil>"

subsection \<open>The tokens of a text, as the specification words them\<close>

text \<open>
  The non-empty whitespace-delimited tokens of a text: skip whitespace, take the maximal
  run of non-whitespace characters, repeat.
\<close>

function spec_tokens :: "string \<Rightarrow> string list" where
  "spec_tokens s =
     (case dropWhile is_space s of
        [] \<Rightarrow> []
      | c # cs \<Rightarrow> takeWhile (\<lambda>x. \<not> is_space x) (c # cs)
                 # spec_tokens (dropWhile (\<lambda>x. \<not> is_space x) cs))"
  by pat_completeness auto
termination
proof (relation "measure length")
  show "wf (measure length)" by simp
next
  fix s :: string and c cs
  assume "dropWhile is_space s = c # cs"
  then have "length (c # cs) \<le> length s"
    by (metis length_dropWhile_le)
  moreover have "length (dropWhile (\<lambda>x. \<not> is_space x) cs) \<le> length cs"
    by (rule length_dropWhile_le)
  ultimately show "(dropWhile (\<lambda>x. \<not> is_space x) cs, s) \<in> measure length"
    by simp
qed


section \<open>Values, errors and records\<close>

text \<open>
  A thrown value is an \<open>Error\<close> carrying its message, or some other value (\<open>Thrown\<close>), which
  \<open>error instanceof Error\<close> tells apart.
\<close>

datatype exn = Error string | Thrown

text \<open>\<open>error instanceof Error ? error.message : dflt\<close>\<close>

definition message_or :: "exn \<Rightarrow> string \<Rightarrow> string" where
  "message_or e dflt = (case e of Error m \<Rightarrow> m | Thrown \<Rightarrow> dflt)"

text \<open>
  The values \<open>JSON.parse\<close> can return. A JavaScript value that may be \<open>undefined\<close> is a
  \<open>json option\<close>, with \<open>None\<close> for \<open>undefined\<close>. Numbers are rationals.
\<close>

datatype json =
    JNull
  | JBool bool
  | JNum rat
  | JStr string
  | JArr "json list"
  | JObj "(string \<times> json) list"

text \<open>
  Reading a property \<open>analysis.k\<close> of a value that is not \<open>null\<close>: the member of an object,
  and \<open>undefined\<close> on a number, boolean, string or array, none of which has a property
  named like the six keys read below. On \<open>null\<close> the read throws a \<open>TypeError\<close>.
\<close>

fun member :: "json \<Rightarrow> string \<Rightarrow> json option" where
  "member (JObj kvs) k = map_of kvs k"
| "member v k = None"

definition get_prop :: "json \<Rightarrow> string \<Rightarrow> exn + json option" where
  "get_prop v k =
     (if v = JNull
      then Inl (Error (''Cannot read properties of null (reading '' @ [CHR 0x27] @ k @ [CHR 0x27] @ '')''))
      else Inr (member v k))"

text \<open>Truthiness, as the operator \<open>||\<close> tests it.\<close>

fun truthy :: "json option \<Rightarrow> bool" where
  "truthy None = False"
| "truthy (Some JNull) = False"
| "truthy (Some (JBool b)) = b"
| "truthy (Some (JNum n)) = (n \<noteq> 0)"
| "truthy (Some (JStr s)) = (s \<noteq> [])"
| "truthy (Some (JArr xs)) = True"
| "truthy (Some (JObj kvs)) = True"

text \<open>\<open>v || dflt\<close>\<close>

definition or_default :: "json option \<Rightarrow> json \<Rightarrow> json" where
  "or_default v dflt = (if truthy v then the v else dflt)"

text \<open>\<open>Array.isArray(v) ? v : []\<close>\<close>

fun array_or_empty :: "json option \<Rightarrow> json list" where
  "array_or_empty (Some (JArr xs)) = xs"
| "array_or_empty v = []"

text \<open>
  The descriptor \<open>fileData\<close> of an uploaded file and the record \<open>DocumentAnalysis\<close>. The
  fields carry the prefixes \<open>fd_\<close> and \<open>da_\<close>, since both records have an \<open>id\<close> and a
  \<open>fileName\<close>. The fields of an analysis that are copied from the model's reply hold
  whatever value the reply had there.
\<close>

record fileData =
  fd_id :: string
  fd_fileName :: string
  fd_filePath :: string
  fd_type :: string

record DocumentAnalysis =
  da_id :: string
  da_fileName :: string
  da_fileType :: string
  da_processingTime :: int
  da_textContent :: string
  da_wordCount :: nat
  da_pageCount :: "nat option"
  da_sentiment :: "json option"
  da_topics :: "json list"
  da_summary :: json
  da_entities :: "json list"
  da_keyInsights :: "json list"
  da_analyzedAt :: int
  da_confidence :: json

section \<open>The world: temp storage, clock, model, libraries\<close>

text \<open>
  The directory \<open>./uploads\<close> is an association list from file name to entry, or
  \<^const>\<open>None\<close> when the directory does not exist. \<open>resolve\<close> is the name, in that
  directory, of the file that \<open>path.join("./uploads", filePath)\<close> denotes: the path
  normalised, which for a plain file name is the name itself (a path that leaves the
  directory resolves to a name that is not listed). Every operation of the file system
  can fail on a file that exists: an entry that is not \<open>statable\<close> makes \<open>stat\<close> fail (a
  dangling link, a permission), one that is not \<open>readable\<close> makes \<open>readFile\<close> fail, one that
  is not \<open>removable\<close> makes \<open>unlink\<close> fail; \<open>can_readdir\<close>, \<open>can_mkdir\<close> and \<open>can_write\<close> say
  whether \<open>readdir\<close>, \<open>mkdir\<close> and \<open>writeFile\<close> succeed. The clock is a stream of readings,
  one consumed by each \<open>Date.now()\<close> and \<open>new Date()\<close>. The trace records every call to the
  file system, under the path the source joins to the directory, and to the model, in
  order; console output is not modelled.
\<close>

record entry =
  data :: string
  mtime :: int
  statable :: bool
  readable :: bool
  removable :: bool

datatype event =
    Readdir
  | Stat string
  | Unlink string
  | ReadFile string
  | WriteFile string
  | Mkdir
  | Invoke "string + string list"

record world =
  uploads :: "(string \<times> entry) list option"
  resolve :: "string \<Rightarrow> string"
  can_readdir :: bool
  can_mkdir :: bool
  can_write :: "string \<Rightarrow> bool"
  uuids :: nat
  clock :: "nat \<Rightarrow> int"
  ticks :: nat
  invocations :: nat
  trace :: "event list"

text \<open>
  The libraries and the hosted model, as functions of their arguments: the PDF parser,
  mammoth's \<open>extractRawText\<close>, UTF-8 decoding, the text splitter, \<open>JSON.parse\<close>, the
  model's reply (\<open>String(aiResult.content)\<close>) to its \<open>n\<close>-th invocation, the \<open>n\<close>-th
  identifier \<open>uuidv4()\<close> generates, and \<open>path.extname\<close>.
\<close>

record env =
  parsePDFContent :: "string \<Rightarrow> exn + string"
  extractRawText :: "string \<Rightarrow> exn + string"
  utf8 :: "string \<Rightarrow> string"
  splitText :: "string \<Rightarrow> exn + string list"
  JSON_parse :: "string \<Rightarrow> exn + json"
  invoke :: "nat \<Rightarrow> string + string list \<Rightarrow> exn + string"
  uuidv4 :: "nat \<Rightarrow> string"
  extname :: "string \<Rightarrow> string"

definition log_event :: "event \<Rightarrow> world \<Rightarrow> world" where
  "log_event ev w = w\<lparr>trace := trace w @ [ev]\<rparr>"

definition lookup_entry :: "world \<Rightarrow> string \<Rightarrow> entry option" where
  "lookup_entry w p = (case uploads w of None \<Rightarrow> None | Some es \<Rightarrow> map_of es (resolve w p))"

definition date_now :: "world \<Rightarrow> int \<times> world" where
  "date_now w = (clock w (ticks w), w\<lparr>ticks := Suc (ticks w)\<rparr>)"

definition fs_readdir :: "world \<Rightarrow> (exn + string list) \<times> world" where
  "fs_readdir w =
     (case uploads w of
        None \<Rightarrow> (Inl (Error ''ENOENT''), log_event Readdir w)
      | Some es \<Rightarrow>
          if can_readdir w then (Inr (map fst es), log_event Readdir w)
          else (Inl (Error ''EACCES''), log_event Readdir w))"

definition fs_stat :: "world \<Rightarrow> string \<Rightarrow> (exn + int) \<times> world" where
  "fs_stat w p =
     (case lookup_entry w p of
        None \<Rightarrow> (Inl (Error ''ENOENT''), log_event (Stat p) w)
      | Some e \<Rightarrow>
          if statable e then (Inr (mtime e), log_event (Stat p) w)
          else (Inl (Error ''ENOENT''), log_event (Stat p) w))"

definition fs_readFile :: "world \<Rightarrow> string \<Rightarrow> (exn + string) \<times> world" where
  "fs_readFile w p =
     (case lookup_entry w p of
        None \<Rightarrow> (Inl (Error ''ENOENT''), log_event (ReadFile p) w)
      | Some e \<Rightarrow>
          if readable e then (Inr (data e), log_event (ReadFile p) w)
          else (Inl (Error ''EACCES''), log_event (ReadFile p) w))"

definition remove_entry :: "string \<Rightarrow> world \<Rightarrow> world" where
  "remove_entry p w =
     w\<lparr>uploads := map_option (filter (\<lambda>(n, e). n \<noteq> resolve w p)) (uploads w)\<rparr>"

definition fs_unlink :: "world \<Rightarrow> string \<Rightarrow> (exn + unit) \<times> world" where
  "fs_unlink w p =
     (case lookup_entry w p of
        None \<Rightarrow> (Inl (Error ''ENOENT''), log_event (Unlink p) w)
      | Some e \<Rightarrow>
          if removable e then (Inr (), remove_entry p (log_event (Unlink p) w))
          else (Inl (Error ''EPERM''), log_event (Unlink p) w))"

section \<open>Deleting and sweeping temp storage\<close>

text \<open>\<open>deleteUploadedFile\<close>: the \<open>unlink\<close> in a \<open>try\<close> whose \<open>catch\<close> only logs.\<close>

definition deleteUploadedFile :: "world \<Rightarrow> string \<Rightarrow> (exn + unit) \<times> world" where
  "deleteUploadedFile w filePath =
     (case fs_unlink w filePath of
        (Inr u, w1) \<Rightarrow> (Inr (), w1)
      | (Inl error, w1) \<Rightarrow> (Inr (), w1))"

text \<open>
  The loop of \<open>cleanupUploadsFolder\<close> over the names \<open>readdir\<close> returned. An exception
  leaves the loop; what was deleted before stays deleted.
\<close>

fun cleanup_loop :: "world \<Rightarrow> string list \<Rightarrow> (exn + unit) \<times> world" where
  "cleanup_loop w [] = (Inr (), w)"
| "cleanup_loop w (file # files) =
     (case fs_stat w file of
        (Inl error, w1) \<Rightarrow> (Inl error, w1)
      | (Inr stats_mtime, w1) \<Rightarrow>
          (case date_now w1 of
             (now, w2) \<Rightarrow>
               let oneHourAgo = now - 3600000 in
               if stats_mtime < oneHourAgo then
                 (case fs_unlink w2 file of
                    (Inl error, w3) \<Rightarrow> (Inl error, w3)
                  | (Inr u, w3) \<Rightarrow> cleanup_loop w3 files)
               else cleanup_loop w2 files))"

definition cleanupUploadsFolder :: "world \<Rightarrow> (exn + unit) \<times> world" where
  "cleanupUploadsFolder w =
     (case fs_readdir w of
        (Inl error, w1) \<Rightarrow> (Inr (), w1)
      | (Inr files, w1) \<Rightarrow>
          (case cleanup_loop w1 files of
             (Inl error, w2) \<Rightarrow> (Inr (), w2)
           | (Inr u, w2) \<Rightarrow> (Inr (), w2)))"


section \<open>Text extraction\<close>

text \<open>
  The \<open>switch\<close> inside the \<open>try\<close> of \<open>extractTextFromFile\<close>, and the function itself, whose
  \<open>catch\<close> replaces whatever was thrown in the \<open>switch\<close> by one fixed error.
\<close>

definition extract_switch :: "env \<Rightarrow> world \<Rightarrow> string \<Rightarrow> string \<Rightarrow> (exn + string) \<times> world" where
  "extract_switch lib w filePath fileType =
     (if fileType = ''application/pdf'' then
        (case fs_readFile w filePath of
           (Inl error, w1) \<Rightarrow> (Inl error, w1)
         | (Inr pdfBuffer, w1) \<Rightarrow> (parsePDFContent lib pdfBuffer, w1))
      else if fileType = ''application/vnd.openxmlformats-officedocument.wordprocessingml.document''
            \<or> fileType = ''application/msword'' then
        (case fs_readFile w filePath of
           (Inl error, w1) \<Rightarrow> (Inl error, w1)
         | (Inr docBuffer, w1) \<Rightarrow> (extractRawText lib docBuffer, w1))
      else if fileType = ''text/plain'' then
        (case fs_readFile w filePath of
           (Inl error, w1) \<Rightarrow> (Inl error, w1)
         | (Inr bytes, w1) \<Rightarrow> (Inr (utf8 lib bytes), w1))
      else (Inl (Error (''Unsupported file type: '' @ fileType)), w))"

definition extractTextFromFile :: "env \<Rightarrow> world \<Rightarrow> string \<Rightarrow> string \<Rightarrow> (exn + string) \<times> world" where
  "extractTextFromFile lib w filePath fileType =
     (case extract_switch lib w filePath fileType of
        (Inl error, w1) \<Rightarrow> (Inl (Error ''Failed to extract text from document''), w1)
      | (Inr text, w1) \<Rightarrow> (Inr text, w1))"

section \<open>Parsing the model's reply\<close>

text \<open>
  \<open>cleanedResponse.match(/\{[\s\S]*\}/)\<close>: the match starts at the first \<open>{\<close>; the greedy
  \<open>[\s\S]*\<close> runs to the end of the string and backs up to the last \<open>}\<close>. There is no
  match when no \<open>}\<close> follows the first \<open>{\<close>.
\<close>

definition jsonMatch :: "string \<Rightarrow> string option" where
  "jsonMatch s =
     (case dropWhile (\<lambda>c. c \<noteq> CHR ''{'') s of
        [] \<Rightarrow> None
      | b # rest \<Rightarrow>
          if CHR ''}'' \<in> set rest
          then Some (b # rev (dropWhile (\<lambda>c. c \<noteq> CHR ''}'') (rev rest)))
          else None)"

definition fence :: string where
  "fence = [CHR 0x60, CHR 0x60, CHR 0x60]"

definition cleanResponse :: "string \<Rightarrow> string" where
  "cleanResponse content = trim (remove_all fence (remove_all (fence @ ''json'') content))"

definition fallback_analysis :: json where
  "fallback_analysis =
     JObj [(''sentiment'', JStr ''Analysis completed''),
           (''topics'', JArr [JStr ''Document analysis'']),
           (''summary'', JStr ''Document processed successfully''),
           (''entities'', JArr []),
           (''keyInsights'', JArr [JStr ''Document contains valuable content'']),
           (''confidence'', JNum (7 / 10))]"

text \<open>The inner \<open>try\<close>/\<open>catch\<close> of \<open>processDocumentAction\<close>, from the reply to \<open>analysis\<close>.\<close>

definition parse_reply :: "env \<Rightarrow> string \<Rightarrow> json" where
  "parse_reply lib content =
     (let cleanedResponse = cleanResponse content in
      case (case jsonMatch cleanedResponse of
              Some m \<Rightarrow> JSON_parse lib m
            | None \<Rightarrow> JSON_parse lib cleanedResponse) of
        Inr analysis \<Rightarrow> analysis
      | Inl parseError \<Rightarrow> fallback_analysis)"

section \<open>Processing one document\<close>

text \<open>
  The result object literal of \<open>processDocumentAction\<close>. Its fields are evaluated in
  order, so a \<open>TypeError\<close> from \<open>analysis.sentiment\<close> comes before \<open>new Date()\<close> is read;
  the later reads of \<open>analysis\<close> find it not \<open>null\<close>.
\<close>

definition build_result ::
  "world \<Rightarrow> fileData \<Rightarrow> int \<Rightarrow> string \<Rightarrow> json \<Rightarrow> (exn + DocumentAnalysis) \<times> world" where
  "build_result w fileData processingTime textContent analysis =
     (case get_prop analysis ''sentiment'' of
        Inl error \<Rightarrow> (Inl error, w)
      | Inr sentiment \<Rightarrow>
          (case date_now w of
             (analyzedAt, w1) \<Rightarrow>
               (Inr \<lparr>da_id = fd_id fileData,
                     da_fileName = fd_fileName fileData,
                     da_fileType = fd_type fileData,
                     da_processingTime = processingTime,
                     da_textContent = take 1000 textContent,
                     da_wordCount = wordCount textContent,
                     da_pageCount = Some (estimatePageCount textContent),
                     da_sentiment = sentiment,
                     da_topics = array_or_empty (member analysis ''topics''),
                     da_summary = or_default (member analysis ''summary'')
                                    (JStr ''No summary available''),
                     da_entities = array_or_empty (member analysis ''entities''),
                     da_keyInsights = array_or_empty (member analysis ''keyInsights''),
                     da_analyzedAt = analyzedAt,
                     da_confidence = or_default (member analysis ''confidence'')
                                       (JNum (7 / 10))\<rparr>, w1)))"

text \<open>The body of the outer \<open>try\<close>, up to the result (the deletion that follows is below).\<close>

definition process_try ::
  "env \<Rightarrow> world \<Rightarrow> fileData \<Rightarrow> int \<Rightarrow> (exn + DocumentAnalysis) \<times> world" where
  "process_try lib w fileData startTime =
     (case extractTextFromFile lib w (fd_filePath fileData) (fd_type fileData) of
        (Inl error, w1) \<Rightarrow> (Inl error, w1)
      | (Inr textContent, w1) \<Rightarrow>
          if textContent = [] \<or> length (trim textContent) = 0 then
            (Inl (Error ''No text content found in document''), w1)
          else
            (case splitText lib textContent of
               Inl error \<Rightarrow> (Inl error, w1)
             | Inr chunks \<Rightarrow>
                 let analysisText = (if length chunks > 1 then Inr chunks else Inl textContent);
                     w2 = log_event (Invoke analysisText) (w1\<lparr>invocations := Suc (invocations w1)\<rparr>)
                 in
                 (case invoke lib (invocations w1) analysisText of
                    Inl error \<Rightarrow> (Inl error, w2)
                  | Inr content \<Rightarrow>
                      let analysis = parse_reply lib content in
                      (case date_now w2 of
                         (now, w3) \<Rightarrow>
                           build_result w3 fileData (now - startTime) textContent analysis))))"

text \<open>The outer \<open>catch\<close>: delete, then throw the wrapped error.\<close>

definition process_catch :: "world \<Rightarrow> fileData \<Rightarrow> exn \<Rightarrow> (exn + DocumentAnalysis) \<times> world" where
  "process_catch w fileData error =
     (case deleteUploadedFile w (fd_filePath fileData) of
        (Inl thrown, w1) \<Rightarrow> (Inl thrown, w1)
      | (Inr u, w1) \<Rightarrow>
          (Inl (Error (''Failed to process document: '' @ message_or error ''Unknown error'')), w1))"

definition processDocumentAction ::
  "env \<Rightarrow> world \<Rightarrow> fileData \<Rightarrow> (exn + DocumentAnalysis) \<times> world" where
  "processDocumentAction lib w fileData =
     (case date_now w of
        (startTime, w0) \<Rightarrow>
          (case process_try lib w0 fileData startTime of
             (Inl error, w1) \<Rightarrow> process_catch w1 fileData error
           | (Inr result, w1) \<Rightarrow>
               (case deleteUploadedFile w1 (fd_filePath fileData) of
                  (Inl thrown, w2) \<Rightarrow> process_catch w2 fileData thrown
                | (Inr u, w2) \<Rightarrow> (Inr result, w2))))"

section \<open>Processing a batch\<close>

text \<open>The error record pushed by the \<open>catch\<close> of \<open>processBatchDocuments\<close>.\<close>

definition error_result :: "fileData \<Rightarrow> exn \<Rightarrow> int \<Rightarrow> DocumentAnalysis" where
  "error_result file error analyzedAt =
     \<lparr>da_id = fd_id file,
      da_fileName = fd_fileName file,
      da_fileType = fd_type file,
      da_processingTime = 0,
      da_textContent = [],
      da_wordCount = 0,
      da_pageCount = None,
      da_sentiment = Some (JStr ''Error''),
      da_topics = [],
      da_summary = JStr (''Processing failed: '' @ message_or error ''Unknown error''),
      da_entities = [],
      da_keyInsights = [],
      da_analyzedAt = analyzedAt,
      da_confidence = JNum 0\<rparr>"

text \<open>The body of the loop: one file, one result, or an exception that leaves the loop.\<close>

definition batch_step :: "env \<Rightarrow> world \<Rightarrow> fileData \<Rightarrow> (exn + DocumentAnalysis) \<times> world" where
  "batch_step lib w file =
     (case processDocumentAction lib w file of
        (Inr analysis, w1) \<Rightarrow> (Inr analysis, w1)
      | (Inl error, w1) \<Rightarrow>
          (case deleteUploadedFile w1 (fd_filePath file) of
             (Inl thrown, w2) \<Rightarrow> (Inl thrown, w2)
           | (Inr u, w2) \<Rightarrow>
               (case date_now w2 of
                  (analyzedAt, w3) \<Rightarrow> (Inr (error_result file error analyzedAt), w3))))"

fun batch_loop ::
  "env \<Rightarrow> world \<Rightarrow> DocumentAnalysis list \<Rightarrow> fileData list \<Rightarrow> (exn + DocumentAnalysis list) \<times> world" where
  "batch_loop lib w results [] = (Inr results, w)"
| "batch_loop lib w results (file # files) =
     (case batch_step lib w file of
        (Inl thrown, w1) \<Rightarrow> (Inl thrown, w1)
      | (Inr r, w1) \<Rightarrow> batch_loop lib w1 (results @ [r]) files)"

definition processBatchDocuments ::
  "env \<Rightarrow> world \<Rightarrow> fileData list \<Rightarrow> (exn + DocumentAnalysis list) \<times> world" where
  "processBatchDocuments lib w files = batch_loop lib w [] files"


section \<open>The upload route\<close>

text \<open>
  An uploaded \<open>File\<close> (\<open>arrayBuffer\<close> is what reading its bytes yields), the two shapes of
  a per-file outcome, and the response: its HTTP status and its JSON body.
\<close>

record upFile =
  uf_name :: string
  uf_size :: int
  uf_type :: string
  uf_arrayBuffer :: "exn + string"

datatype uploadResult =
    Failure string string
  | Success string string string int string string int

text \<open>The field \<open>success\<close> of a per-file outcome.\<close>

fun success :: "uploadResult \<Rightarrow> bool" where
  "success (Failure fileName error) = False"
| "success (Success fileId fileName originalName bytes mime filePath uploadedAt) = True"

datatype body = ErrorBody string | FilesBody bool "uploadResult list"

datatype response = Response nat body

text \<open>
  \<open>MAX_FILE_SIZE\<close> is \<open>parseInt\<close> of the setting, or of \<open>"10485760"\<close> when there is none;
  \<open>None\<close> stands for the \<open>NaN\<close> that \<open>parseInt\<close> returns on a setting that is no number,
  against which every comparison is false.
\<close>

definition default_MAX_FILE_SIZE :: "int option" where
  "default_MAX_FILE_SIZE = Some 10485760"

definition exceeds :: "int \<Rightarrow> int option \<Rightarrow> bool" where
  "exceeds file_size MAX_FILE_SIZE =
     (case MAX_FILE_SIZE of None \<Rightarrow> False | Some m \<Rightarrow> file_size > m)"

definition allowedTypes :: "string list" where
  "allowedTypes =
     [''application/pdf'',
      ''application/vnd.openxmlformats-officedocument.wordprocessingml.document'',
      ''application/msword'',
      ''text/plain'']"

definition fs_mkdir :: "world \<Rightarrow> (exn + unit) \<times> world" where
  "fs_mkdir w =
     (if can_mkdir w
      then (Inr (), log_event Mkdir (w\<lparr>uploads := Some (case uploads w of None \<Rightarrow> [] | Some es \<Rightarrow> es)\<rparr>))
      else (Inl (Error ''EACCES''), log_event Mkdir w))"

definition fs_writeFile :: "world \<Rightarrow> string \<Rightarrow> string \<Rightarrow> (exn + unit) \<times> world" where
  "fs_writeFile w p buffer =
     (case uploads w of
        None \<Rightarrow> (Inl (Error ''ENOENT''), log_event (WriteFile p) w)
      | Some es \<Rightarrow>
          if can_write w p then
            (Inr (),
             log_event (WriteFile p)
               (w\<lparr>uploads := Some (filter (\<lambda>(n, e). n \<noteq> resolve w p) es
                    @ [(resolve w p,
                        \<lparr>data = buffer, mtime = clock w (ticks w), statable = True,
                         readable = True, removable = True\<rparr>)])\<rparr>))
          else (Inl (Error ''EACCES''), log_event (WriteFile p) w))"

text \<open>The inner \<open>try\<close> of the loop: name the file, read its bytes, save it.\<close>

definition save_file :: "env \<Rightarrow> world \<Rightarrow> upFile \<Rightarrow> (exn + uploadResult) \<times> world" where
  "save_file lib w file =
     (let fileId = uuidv4 lib (uuids w);
          w1 = w\<lparr>uuids := Suc (uuids w)\<rparr>;
          fileExtension = extname lib (uf_name file);
          fileName = fileId @ fileExtension
      in
      case uf_arrayBuffer file of
        Inl error \<Rightarrow> (Inl error, w1)
      | Inr buffer \<Rightarrow>
          (case fs_writeFile w1 fileName buffer of
             (Inl error, w2) \<Rightarrow> (Inl error, w2)
           | (Inr u, w2) \<Rightarrow>
               (case date_now w2 of
                  (uploadedAt, w3) \<Rightarrow>
                    (Inr (Success fileId (uf_name file) (uf_name file) (uf_size file)
                            (uf_type file) fileName uploadedAt), w3))))"

text \<open>The body of the loop over the files: the outcome it pushes.\<close>

definition upload_step :: "env \<Rightarrow> int option \<Rightarrow> world \<Rightarrow> upFile \<Rightarrow> uploadResult \<times> world" where
  "upload_step lib MAX_FILE_SIZE w file =
     (if exceeds (uf_size file) MAX_FILE_SIZE then
        (Failure (uf_name file) ''File size exceeds limit (10MB)'', w)
      else if uf_type file \<notin> set allowedTypes then
        (Failure (uf_name file) ''Unsupported file type'', w)
      else
        (case save_file lib w file of
           (Inl error, w1) \<Rightarrow> (Failure (uf_name file) ''Failed to save file'', w1)
         | (Inr saved, w1) \<Rightarrow> (saved, w1)))"

fun upload_loop ::
  "env \<Rightarrow> int option \<Rightarrow> world \<Rightarrow> uploadResult list \<Rightarrow> upFile list \<Rightarrow> uploadResult list \<times> world" where
  "upload_loop lib MAX_FILE_SIZE w uploadResults [] = (uploadResults, w)"
| "upload_loop lib MAX_FILE_SIZE w uploadResults (file # files) =
     (case upload_step lib MAX_FILE_SIZE w file of
        (r, w1) \<Rightarrow> upload_loop lib MAX_FILE_SIZE w1 (uploadResults @ [r]) files)"

text \<open>
  The \<open>try\<close> of \<open>POST\<close>. The request is what \<open>req.formData()\<close> and \<open>getAll("files")\<close>
  yield: an exception, or the list of files (every entry named \<open>files\<close> is taken to be a
  \<open>File\<close>, as the cast in the source does).
\<close>

definition post_try ::
  "env \<Rightarrow> int option \<Rightarrow> world \<Rightarrow> exn + upFile list \<Rightarrow> (exn + response) \<times> world" where
  "post_try lib MAX_FILE_SIZE w req =
     (case req of
        Inl error \<Rightarrow> (Inl error, w)
      | Inr files \<Rightarrow>
          if length files = 0 then (Inr (Response 400 (ErrorBody ''No files uploaded'')), w)
          else
            (case cleanupUploadsFolder w of
               (Inl error, w1) \<Rightarrow> (Inl error, w1)
             | (Inr u, w1) \<Rightarrow>
                 (case (if uploads w1 = None then fs_mkdir w1 else (Inr (), w1)) of
                    (Inl error, w2) \<Rightarrow> (Inl error, w2)
                  | (Inr u, w2) \<Rightarrow>
                      (case upload_loop lib MAX_FILE_SIZE w2 [] files of
                         (uploadResults, w3) \<Rightarrow>
                           (Inr (Response 200 (FilesBody True uploadResults)), w3)))))"

definition POST :: "env \<Rightarrow> int option \<Rightarrow> world \<Rightarrow> exn + upFile list \<Rightarrow> response \<times> world" where
  "POST lib MAX_FILE_SIZE w req =
     (case post_try lib MAX_FILE_SIZE w req of
        (Inl error, w1) \<Rightarrow> (Response 500 (ErrorBody ''Upload failed''), w1)
      | (Inr resp, w1) \<Rightarrow> (resp, w1))"


section \<open>A small concrete world\<close>

text \<open>
  The theorems below hold for every library, model and world. To run the functions the
  following instances are used: \<open>JSON.parse\<close> on the texts of the examples (its value on the
  three of them that are JSON; the others are no JSON and get the \<open>SyntaxError\<close>), libraries
  that return their input, a model that always replies \<open>reply\<close>, and a world whose clock
  always reads \<open>now\<close>.
\<close>

definition example_parse :: "string \<Rightarrow> exn + json" where
  "example_parse s =
     (if s = ''{\"sentiment\":\"Positive\"}'' then Inr (JObj [(''sentiment'', JStr ''Positive'')])
      else if s = ''null'' then Inr JNull
      else if s = ''42'' then Inr (JNum 42)
      else Inl (Error ''SyntaxError''))"

definition example_lib :: "string \<Rightarrow> env" where
  "example_lib reply =
     \<lparr>parsePDFContent = (\<lambda>b. Inr b),
      extractRawText = (\<lambda>b. Inr b),
      utf8 = (\<lambda>b. b),
      splitText = (\<lambda>t. Inr [t]),
      JSON_parse = example_parse,
      invoke = (\<lambda>n t. Inr reply),
      uuidv4 = (\<lambda>n. replicate (Suc n) (CHR ''a'')),
      extname = (\<lambda>name. ''.txt'')\<rparr>"

definition example_entry :: "string \<Rightarrow> int \<Rightarrow> bool \<Rightarrow> entry" where
  "example_entry text modified rm =
     \<lparr>data = text, mtime = modified, statable = True, readable = True, removable = rm\<rparr>"

text \<open>An entry on which \<open>stat\<close> fails, as on a link whose target is gone.\<close>

definition example_dangling :: "int \<Rightarrow> entry" where
  "example_dangling modified =
     \<lparr>data = [], mtime = modified, statable = False, readable = False, removable = True\<rparr>"

text \<open>\<open>path.join\<close> on the paths of the examples: a leading \<open>./\<close> is dropped.\<close>

definition example_resolve :: "string \<Rightarrow> string" where
  "example_resolve p = (if take 2 p = ''./'' then drop 2 p else p)"

definition example_world :: "(string \<times> entry) list \<Rightarrow> int \<Rightarrow> world" where
  "example_world es now =
     \<lparr>uploads = Some es, resolve = example_resolve, can_readdir = True, can_mkdir = True,
      can_write = (\<lambda>p. True), uuids = 0,
      clock = (\<lambda>n. now), ticks = 0, invocations = 0, trace = []\<rparr>"

text \<open>A world in which every \<open>writeFile\<close> fails, and one without the upload directory in
  which \<open>mkdir\<close> fails.\<close>

definition example_full_disk :: "world \<Rightarrow> world" where
  "example_full_disk w = w\<lparr>can_write := (\<lambda>p. False)\<rparr>"

definition example_no_directory :: "world \<Rightarrow> world" where
  "example_no_directory w = w\<lparr>uploads := None, can_mkdir := False\<rparr>"

definition example_upload :: "string \<Rightarrow> int \<Rightarrow> string \<Rightarrow> upFile" where
  "example_upload name bytes mime =
     \<lparr>uf_name = name, uf_size = bytes, uf_type = mime, uf_arrayBuffer = Inr ''contents''\<rparr>"

definition example_file :: "string \<Rightarrow> string \<Rightarrow> fileData" where
  "example_file path type =
     \<lparr>fd_id = ''id-'' @ path, fd_fileName = ''doc-'' @ path, fd_filePath = path, fd_type = type\<rparr>"


section \<open>The reply parser, as the specification words it\<close>

text \<open>
  The first balanced-brace substring of a text: from a \<open>{\<close>, the shortest stretch in which
  every \<open>{\<close> has its \<open>}\<close>; the first \<open>{\<close> that has one wins. \<open>balanced_end d s\<close> is the prefix of
  \<open>s\<close> that closes \<open>d + 1\<close> open braces.
\<close>

fun balanced_end :: "nat \<Rightarrow> string \<Rightarrow> string option" where
  "balanced_end d [] = None"
| "balanced_end d (c # cs) =
     (if c = CHR ''{'' then map_option (Cons c) (balanced_end (Suc d) cs)
      else if c = CHR ''}'' then
        (case d of 0 \<Rightarrow> Some [c] | Suc d' \<Rightarrow> map_option (Cons c) (balanced_end d' cs))
      else map_option (Cons c) (balanced_end d cs))"

fun first_balanced :: "string \<Rightarrow> string option" where
  "first_balanced [] = None"
| "first_balanced (c # cs) =
     (if c = CHR ''{'' then
        (case balanced_end 0 cs of Some t \<Rightarrow> Some (c # t) | None \<Rightarrow> first_balanced cs)
      else first_balanced cs)"

text \<open>
  The parser of the specification: strip the fences, parse the first balanced-brace
  substring, or the whole cleaned text when there is none; the fallback when that fails.
\<close>

definition spec_parse_reply :: "env \<Rightarrow> string \<Rightarrow> json" where
  "spec_parse_reply lib content =
     (let cleaned = cleanResponse content in
      case (case first_balanced cleaned of
              Some m \<Rightarrow> JSON_parse lib m
            | None \<Rightarrow> JSON_parse lib cleaned) of
        Inr analysis \<Rightarrow> analysis
      | Inl parseError \<Rightarrow> fallback_analysis)"

section \<open>What a sweep leaves behind\<close>

text \<open>
  An entry is expired at a clock reading when its modification time is more than
  3,600,000 ms before it. The sweep fails at an entry when \<open>stat\<close> fails on it, or when it
  is expired and \<open>unlink\<close> fails on it.
\<close>

definition expired :: "int \<Rightarrow> entry \<Rightarrow> bool" where
  "expired now e = (mtime e < now - 3600000)"

definition sweep_fails :: "int \<Rightarrow> entry \<Rightarrow> bool" where
  "sweep_fails now e = (\<not> statable e \<or> (expired now e \<and> \<not> removable e))"

text \<open>
  The effect of the sweep on the listing of the directory, entry by entry; \<open>clk t\<close> is the
  clock reading taken for the first entry. An expired entry is dropped; an entry at
  which the sweep fails ends it, and that entry and the rest of the listing stay.
\<close>

fun sweep_result :: "(nat \<Rightarrow> int) \<Rightarrow> nat \<Rightarrow> (string \<times> entry) list \<Rightarrow> (string \<times> entry) list" where
  "sweep_result clk t [] = []"
| "sweep_result clk t ((n, e) # es) =
     (if \<not> statable e then (n, e) # es
      else if mtime e < clk t - 3600000 then
        (if removable e then sweep_result clk (Suc t) es else (n, e) # es)
      else (n, e) # sweep_result clk (Suc t) es)"

section \<open>Worlds that differ in whether deletion succeeds\<close>


section \<open>Unfolding the model on concrete inputs\<close>

lemmas fs_defs = fs_readFile_def fs_unlink_def fs_stat_def fs_readdir_def fs_mkdir_def
  fs_writeFile_def lookup_entry_def remove_entry_def log_event_def date_now_def

lemmas example_defs = example_world_def example_lib_def example_entry_def example_file_def
  example_parse_def example_upload_def example_full_disk_def example_no_directory_def
  example_resolve_def example_dangling_def

lemmas upload_defs = POST_def post_try_def upload_step_def save_file_def cleanupUploadsFolder_def
  exceeds_def default_MAX_FILE_SIZE_def allowedTypes_def Let_def

lemmas run_defs = processDocumentAction_def process_try_def process_catch_def
  extractTextFromFile_def extract_switch_def deleteUploadedFile_def build_result_def
  parse_reply_def cleanResponse_def jsonMatch_def fence_def fallback_analysis_def or_default_def
  trim_def is_space_def Let_def message_or_def error_result_def batch_step_def
  processBatchDocuments_def get_prop_def

section \<open>Word count and page estimate\<close>

declare spec_tokens.simps [simp del]

lemma spec_tokens_Nil: "spec_tokens [] = []"
  by (simp add: spec_tokens.simps)

lemma spec_tokens_space: "is_space c \<Longrightarrow> spec_tokens (c # cs) = spec_tokens cs"
  by (subst spec_tokens.simps, subst (2) spec_tokens.simps) simp

lemma spec_tokens_skip: "spec_tokens (dropWhile is_space s) = spec_tokens s"
  by (induction s) (simp_all add: spec_tokens_space)

lemma spec_tokens_word:
  "\<not> is_space c \<Longrightarrow>
   spec_tokens (c # cs) =
     (c # takeWhile (\<lambda>x. \<not> is_space x) cs) # spec_tokens (dropWhile (\<lambda>x. \<not> is_space x) cs)"
  by (subst spec_tokens.simps) simp

text \<open>
  The pieces of \<open>split\<close> that survive \<open>filter(Boolean)\<close>, for any piece \<open>cur\<close> under
  construction: the piece in progress, if it is or becomes non-empty, then the tokens of
  the rest.
\<close>

lemma split_from_tokens:
  "filter (\<lambda>t. t \<noteq> []) (split_from cur s) =
     (if cur @ takeWhile (\<lambda>x. \<not> is_space x) s = [] then []
      else [cur @ takeWhile (\<lambda>x. \<not> is_space x) s])
     @ spec_tokens (dropWhile (\<lambda>x. \<not> is_space x) s)"
proof (induction cur s rule: split_from.induct)
  case (1 cur)
  show ?case by (simp add: spec_tokens_Nil)
next
  case (2 cur c cs)
  show ?case
  proof (cases "is_space c")
    case True
    let ?d = "dropWhile is_space cs"
    have ih: "filter (\<lambda>t. t \<noteq> []) (split_from [] ?d) = spec_tokens ?d"
    proof (cases ?d)
      case Nil
      show ?thesis unfolding Nil by (simp add: spec_tokens_Nil)
    next
      case (Cons x xs)
      have nx: "\<not> is_space x"
        using Cons hd_dropWhile [of is_space cs] by simp
      have "filter (\<lambda>t. t \<noteq> []) (split_from [] (x # xs)) = spec_tokens (x # xs)"
        using "2.IH"(1) [OF True] nx unfolding Cons
        by (simp add: spec_tokens_word del: split_from.simps)
      then show ?thesis unfolding Cons .
    qed
    have "filter (\<lambda>t. t \<noteq> []) (split_from cur (c # cs)) =
          (if cur = [] then [] else [cur]) @ spec_tokens ?d"
      using True ih by simp
    also have "spec_tokens ?d = spec_tokens (c # cs)"
      using True by (simp add: spec_tokens_skip spec_tokens_space)
    finally show ?thesis using True by simp
  next
    case False
    then show ?thesis
      using "2.IH"(2) [OF False] by simp
  qed
qed

lemma filter_split_ws: "filter (\<lambda>t. t \<noteq> []) (split_ws s) = spec_tokens s"
proof (cases s)
  case Nil
  then show ?thesis by (simp add: split_ws_def spec_tokens_Nil)
next
  case (Cons c cs)
  show ?thesis
  proof (cases "is_space c")
    case True
    with Cons show ?thesis
      by (simp add: split_ws_def split_from_tokens spec_tokens_space del: split_from.simps)
  next
    case False
    with Cons show ?thesis
      by (simp add: split_ws_def split_from_tokens spec_tokens_word del: split_from.simps)
  qed
qed

lemma wordCount_tokens: "wordCount text = length (spec_tokens text)"
  by (simp add: wordCount_def filter_split_ws)

lemma ceil_div_250: "nat \<lceil>(of_nat n :: rat) / 250\<rceil> = (n + 249) div 250"
proof -
  define z where "z = (n + 249) div 250"
  define m where "m = (n + 249) mod 250"
  have e: "n + 249 = 250 * z + m" and m: "m < 250"
    by (simp_all add: z_def m_def)
  from e have "(of_nat (n + 249) :: rat) = of_nat (250 * z + m)" by simp
  then have er: "(of_nat n :: rat) + 249 = 250 * of_nat z + of_nat m" by simp
  from m have mr: "(of_nat m :: rat) < 250" "(0::rat) \<le> of_nat m"
    by (simp_all add: of_nat_less_numeral_iff)
  have "\<lceil>(of_nat n :: rat) / 250\<rceil> = int z"
  proof (rule ceiling_unique)
    show "of_int (int z) - 1 < (of_nat n :: rat) / 250"
      using er mr by (simp add: field_simps)
    show "(of_nat n :: rat) / 250 \<le> of_int (int z)"
      using er mr by (simp add: field_simps)
  qed
  then show ?thesis by (simp add: z_def)
qed

lemma estimatePageCount_div: "estimatePageCount text = (wordCount text + 249) div 250"
  by (simp add: estimatePageCount_def ceil_div_250)

lemma build_result_counts:
  "build_result w fd pt text a = (Inr r, w') \<Longrightarrow>
     da_wordCount r = wordCount text \<and> da_pageCount r = Some (estimatePageCount text)"
  by (auto simp: build_result_def split: sum.splits prod.splits)

lemma process_try_counts:
  assumes "process_try lib w fd st = (Inr r, w')"
  shows "\<exists>text w1. extractTextFromFile lib w (fd_filePath fd) (fd_type fd) = (Inr text, w1)
           \<and> da_wordCount r = wordCount text \<and> da_pageCount r = Some (estimatePageCount text)"
  using assms
  by (auto simp: process_try_def Let_def dest: build_result_counts
      split: sum.splits prod.splits if_splits)

lemma processDocumentAction_counts:
  assumes "processDocumentAction lib w fd = (Inr r, w')"
  shows "\<exists>text w1.
           extractTextFromFile lib (snd (date_now w)) (fd_filePath fd) (fd_type fd) = (Inr text, w1)
           \<and> da_wordCount r = wordCount text \<and> da_pageCount r = Some (estimatePageCount text)"
  using assms
  by (auto simp: processDocumentAction_def process_catch_def deleteUploadedFile_def
      dest!: process_try_counts split: sum.splits prod.splits)

lemma spec_tokens_replicate:
  "spec_tokens (concat (replicate n ''w '')) = replicate n ''w''"
  by (induction n) (simp_all add: spec_tokens_Nil spec_tokens_word spec_tokens_space is_space_def)

text \<open>
  C9. The word count is the number of non-empty whitespace-delimited tokens of the whole
  text, and the page estimate is that count divided by 250, rounded up; a result returned
  by \<open>processDocumentAction\<close> reports both for the text that was extracted. The text
  \<open>one two   three\<close> has 3 words, and 500 words give 2 pages.
\<close>

theorem word_and_page_count:
  "wordCount text = length (spec_tokens text)
   \<and> estimatePageCount text = (length (spec_tokens text) + 249) div 250
   \<and> (processDocumentAction lib w fd = (Inr r, w') \<longrightarrow>
        (\<exists>extracted w1.
           extractTextFromFile lib (snd (date_now w)) (fd_filePath fd) (fd_type fd)
             = (Inr extracted, w1)
           \<and> da_wordCount r = length (spec_tokens extracted)
           \<and> da_pageCount r = Some ((length (spec_tokens extracted) + 249) div 250)))
   \<and> wordCount ''one two   three'' = 3
   \<and> (length (spec_tokens text) = 500 \<longrightarrow> estimatePageCount text = 2)"
proof -
  have a: "wordCount text = length (spec_tokens text)"
    by (rule wordCount_tokens)
  have b: "estimatePageCount text = (length (spec_tokens text) + 249) div 250"
    by (simp add: estimatePageCount_div wordCount_tokens)
  have c: "processDocumentAction lib w fd = (Inr r, w') \<longrightarrow>
        (\<exists>extracted w1.
           extractTextFromFile lib (snd (date_now w)) (fd_filePath fd) (fd_type fd)
             = (Inr extracted, w1)
           \<and> da_wordCount r = length (spec_tokens extracted)
           \<and> da_pageCount r = Some ((length (spec_tokens extracted) + 249) div 250))"
    using processDocumentAction_counts [of lib w fd r w']
    by (auto simp: estimatePageCount_div wordCount_tokens)
  have d: "wordCount ''one two   three'' = 3"
    by (simp add: wordCount_def split_ws_def is_space_def)
  have e: "length (spec_tokens text) = 500 \<longrightarrow> estimatePageCount text = 2"
    by (simp add: b)
  from a b c d e show ?thesis by blast
qed

lemma example_run:
  "processDocumentAction (example_lib ''hello'')
      (example_world [(''f'', example_entry ''one two   three'' 0 True)] 5)
      (example_file ''f'' ''text/plain'') =
   (Inr \<lparr>da_id = ''id-f'', da_fileName = ''doc-f'',
         da_fileType = ''text/plain'', da_processingTime = 0,
         da_textContent = ''one two   three'', da_wordCount = 3,
         da_pageCount = Some 1,
         da_sentiment = Some (JStr ''Analysis completed''),
         da_topics = [JStr ''Document analysis''],
         da_summary = JStr ''Document processed successfully'',
         da_entities = [],
         da_keyInsights = [JStr ''Document contains valuable content''],
         da_analyzedAt = 5, da_confidence = JNum (7 / 10)\<rparr>,
    snd (processDocumentAction (example_lib ''hello'')
      (example_world [(''f'', example_entry ''one two   three'' 0 True)] 5)
      (example_file ''f'' ''text/plain'')))"
  by (rule prod_eqI)
    (simp_all add: run_defs fs_defs example_defs wordCount_def split_ws_def estimatePageCount_div)

theorem word_and_page_count_witness:
  "length (spec_tokens (concat (replicate 500 ''w ''))) = 500
   \<and> estimatePageCount (concat (replicate 500 ''w '')) = 2
   \<and> (\<exists>r w'. processDocumentAction (example_lib ''hello'')
                 (example_world [(''f'', example_entry ''one two   three'' 0 True)] 5)
                 (example_file ''f'' ''text/plain'') = (Inr r, w')
              \<and> da_wordCount r = 3 \<and> da_pageCount r = Some 1)"
proof -
  have n: "length (spec_tokens (concat (replicate 500 ''w ''))) = 500"
    by (simp add: spec_tokens_replicate)
  have p: "estimatePageCount (concat (replicate 500 ''w '')) = 2"
    using word_and_page_count [of "concat (replicate 500 ''w '')"] n by blast
  from n p example_run show ?thesis by fastforce
qed


section \<open>Deletion, identity of results, traces\<close>


lemma deleteUploadedFile_Inr: "fst (deleteUploadedFile w p) = Inr ()"
  by (simp add: deleteUploadedFile_def split: prod.splits sum.splits)

lemma deleteUploadedFile_cases:
  obtains w1 where "deleteUploadedFile w p = (Inr (), w1)"
  using deleteUploadedFile_Inr [of w p] by (cases "deleteUploadedFile w p") auto

lemma build_result_ids:
  "build_result w fd pt text a = (Inr r, w') \<Longrightarrow>
     da_id r = fd_id fd \<and> da_fileName r = fd_fileName fd \<and> da_fileType r = fd_type fd"
  by (auto simp: build_result_def split: sum.splits prod.splits)

lemma process_try_ids:
  "process_try lib w fd st = (Inr r, w') \<Longrightarrow>
     da_id r = fd_id fd \<and> da_fileName r = fd_fileName fd \<and> da_fileType r = fd_type fd"
  by (auto simp: process_try_def Let_def dest: build_result_ids
      split: sum.splits prod.splits if_splits)

lemma process_catch_Inl:
  "process_catch w fd e =
     (Inl (Error (''Failed to process document: '' @ message_or e ''Unknown error'')),
      snd (deleteUploadedFile w (fd_filePath fd)))"
  by (rule deleteUploadedFile_cases [of w "fd_filePath fd"]) (simp add: process_catch_def)

lemma processDocumentAction_eq:
  "processDocumentAction lib w fd =
     (case process_try lib (snd (date_now w)) fd (fst (date_now w)) of
        (Inl e, w1) \<Rightarrow>
          (Inl (Error (''Failed to process document: '' @ message_or e ''Unknown error'')),
           snd (deleteUploadedFile w1 (fd_filePath fd)))
      | (Inr r, w1) \<Rightarrow> (Inr r, snd (deleteUploadedFile w1 (fd_filePath fd))))"
proof -
  obtain st w0 where d: "date_now w = (st, w0)" by (cases "date_now w")
  obtain res w1 where t: "process_try lib w0 fd st = (res, w1)"
    by (cases "process_try lib w0 fd st")
  obtain w2 where u: "deleteUploadedFile w1 (fd_filePath fd) = (Inr (), w2)"
    by (rule deleteUploadedFile_cases)
  show ?thesis
    by (cases res) (simp_all add: processDocumentAction_def d t u process_catch_Inl)
qed

lemma processDocumentAction_ids:
  "processDocumentAction lib w fd = (Inr r, w') \<Longrightarrow>
     da_id r = fd_id fd \<and> da_fileName r = fd_fileName fd \<and> da_fileType r = fd_type fd"
  by (auto simp: processDocumentAction_eq dest: process_try_ids split: sum.splits prod.splits)

lemma batch_step_eq:
  "batch_step lib w file =
     (case processDocumentAction lib w file of
        (Inr analysis, w1) \<Rightarrow> (Inr analysis, w1)
      | (Inl e, w1) \<Rightarrow>
          (Inr (error_result file e (fst (date_now (snd (deleteUploadedFile w1 (fd_filePath file)))))),
           snd (date_now (snd (deleteUploadedFile w1 (fd_filePath file))))))"
proof -
  obtain res w1 where p: "processDocumentAction lib w file = (res, w1)"
    by (cases "processDocumentAction lib w file")
  obtain w2 where u: "deleteUploadedFile w1 (fd_filePath file) = (Inr (), w2)"
    by (rule deleteUploadedFile_cases)
  show ?thesis
    by (cases res) (simp_all add: batch_step_def p u split: prod.splits)
qed

lemma batch_step_ids:
  "\<exists>r w'. batch_step lib w file = (Inr r, w')
     \<and> da_id r = fd_id file \<and> da_fileName r = fd_fileName file \<and> da_fileType r = fd_type file"
proof -
  obtain res w1 where p: "processDocumentAction lib w file = (res, w1)"
    by (cases "processDocumentAction lib w file")
  show ?thesis
  proof (cases res)
    case (Inl e)
    with p show ?thesis by (simp add: batch_step_eq error_result_def)
  next
    case (Inr r)
    with p processDocumentAction_ids [of lib w "file" r w1] show ?thesis
      by (simp add: batch_step_eq)
  qed
qed

lemma batch_loop_ids:
  "\<exists>rs w'. batch_loop lib w acc files = (Inr (acc @ rs), w')
     \<and> map (\<lambda>r. (da_id r, da_fileName r, da_fileType r)) rs
         = map (\<lambda>f. (fd_id f, fd_fileName f, fd_type f)) files"
proof (induction files arbitrary: w acc)
  case Nil
  then show ?case by simp
next
  case (Cons fd fds)
  obtain r w1 where s: "batch_step lib w fd = (Inr r, w1)"
    and k: "da_id r = fd_id fd" "da_fileName r = fd_fileName fd" "da_fileType r = fd_type fd"
    using batch_step_ids [of lib w fd] by auto
  obtain rs w' where l: "batch_loop lib w1 (acc @ [r]) fds = (Inr ((acc @ [r]) @ rs), w')"
    and m: "map (\<lambda>r. (da_id r, da_fileName r, da_fileType r)) rs
            = map (\<lambda>f. (fd_id f, fd_fileName f, fd_type f)) fds"
    using Cons.IH [of w1 "acc @ [r]"] by blast
  have "batch_loop lib w acc (fd # fds) = (Inr (acc @ (r # rs)), w')"
    using s l by simp
  moreover have "map (\<lambda>r. (da_id r, da_fileName r, da_fileType r)) (r # rs)
                 = map (\<lambda>f. (fd_id f, fd_fileName f, fd_type f)) (fd # fds)"
    using k m by simp
  ultimately show ?case by blast
qed

lemma trim_blank: "(\<forall>c \<in> set text. is_space c) \<longleftrightarrow> trim text = []"
proof
  assume "\<forall>c \<in> set text. is_space c"
  then have d: "dropWhile is_space text = []" by (simp add: dropWhile_eq_Nil_conv)
  show "trim text = []" unfolding trim_def d by simp
next
  assume "trim text = []"
  then have a: "\<forall>x \<in> set (dropWhile is_space text). is_space x"
    by (simp add: trim_def dropWhile_eq_Nil_conv)
  have "dropWhile is_space text = []"
  proof (rule ccontr)
    assume n: "dropWhile is_space text \<noteq> []"
    then have "\<not> is_space (hd (dropWhile is_space text))" by (rule hd_dropWhile)
    moreover have "hd (dropWhile is_space text) \<in> set (dropWhile is_space text)"
      using n by simp
    ultimately show False using a by blast
  qed
  then show "\<forall>c \<in> set text. is_space c" by (simp add: dropWhile_eq_Nil_conv)
qed

lemma fs_readFile_world: "snd (fs_readFile w p) = log_event (ReadFile p) w"
  by (simp add: fs_readFile_def split: option.splits)

lemma fs_unlink_world:
  "snd (fs_unlink w p) = log_event (Unlink p) w
   \<or> snd (fs_unlink w p) = remove_entry p (log_event (Unlink p) w)"
  by (simp add: fs_unlink_def split: option.splits)

lemma extract_switch_world:
  "snd (extract_switch lib w p t) = w \<or> snd (extract_switch lib w p t) = log_event (ReadFile p) w"
proof -
  obtain r where "fs_readFile w p = (r, log_event (ReadFile p) w)"
    using fs_readFile_world [of w p] by (cases "fs_readFile w p") simp
  then show ?thesis
    by (cases r) (simp_all add: extract_switch_def)
qed

lemma extract_world:
  "snd (extractTextFromFile lib w p t) = w
   \<or> snd (extractTextFromFile lib w p t) = log_event (ReadFile p) w"
proof -
  obtain r w1 where e: "extract_switch lib w p t = (r, w1)"
    by (cases "extract_switch lib w p t")
  with extract_switch_world [of lib w p t] have "w1 = w \<or> w1 = log_event (ReadFile p) w" by simp
  with e show ?thesis
    by (cases r) (auto simp: extractTextFromFile_def)
qed

lemma delete_world:
  "snd (deleteUploadedFile w p) = log_event (Unlink p) w
   \<or> snd (deleteUploadedFile w p) = remove_entry p (log_event (Unlink p) w)"
proof -
  obtain r w1 where e: "fs_unlink w p = (r, w1)" by (cases "fs_unlink w p")
  with fs_unlink_world [of w p] show ?thesis
    by (cases r) (auto simp: deleteUploadedFile_def)
qed

lemma delete_trace: "trace (snd (deleteUploadedFile w p)) = trace w @ [Unlink p]"
  using delete_world [of w p] by (auto simp: log_event_def remove_entry_def)

lemma delete_counters:
  "invocations (snd (deleteUploadedFile w p)) = invocations w"
  "ticks (snd (deleteUploadedFile w p)) = ticks w"
  "clock (snd (deleteUploadedFile w p)) = clock w"
  using delete_world [of w p] by (auto simp: log_event_def remove_entry_def)

lemma extract_invocations:
  "invocations (snd (extractTextFromFile lib w p t)) = invocations w"
  using extract_world [of lib w p t] by (auto simp: log_event_def)

lemma extract_trace:
  "trace (snd (extractTextFromFile lib w p t)) = trace w
   \<or> trace (snd (extractTextFromFile lib w p t)) = trace w @ [ReadFile p]"
  using extract_world [of lib w p t] by (auto simp: log_event_def)

lemma date_now_fields:
  "trace (snd (date_now w)) = trace w" "invocations (snd (date_now w)) = invocations w"
  "uploads (snd (date_now w)) = uploads w"
  by (simp_all add: date_now_def)

lemma process_try_blank:
  assumes "extractTextFromFile lib w (fd_filePath fd) (fd_type fd) = (Inr text, w1)"
    and "\<forall>c \<in> set text. is_space c"
  shows "process_try lib w fd st = (Inl (Error ''No text content found in document''), w1)"
  using assms by (simp add: process_try_def trim_blank)















lemma processDocumentAction_result:
  "fst (processDocumentAction lib w fd) =
     (case fst (process_try lib (snd (date_now w)) fd (fst (date_now w))) of
        Inl e \<Rightarrow> Inl (Error (''Failed to process document: '' @ message_or e ''Unknown error''))
      | Inr r \<Rightarrow> Inr r)"
  by (simp add: processDocumentAction_eq split: prod.splits sum.splits)








section \<open>One result per file\<close>


text \<open>
  C1. For every batch, \<open>processBatchDocuments\<close> returns a list with one entry per input
  descriptor, and the \<open>i\<close>-th entry carries the \<open>id\<close>, \<open>fileName\<close> and \<open>type\<close> of the \<open>i\<close>-th
  descriptor, whatever the libraries, the model and the file system do.
\<close>

theorem batch_one_result_per_file:
  "\<exists>rs w'. processBatchDocuments lib w files = (Inr rs, w')
     \<and> length rs = length files
     \<and> (\<forall>i < length files.
           da_id (rs ! i) = fd_id (files ! i)
           \<and> da_fileName (rs ! i) = fd_fileName (files ! i)
           \<and> da_fileType (rs ! i) = fd_type (files ! i))"
proof -
  obtain rs w' where l: "batch_loop lib w [] files = (Inr ([] @ rs), w')"
    and m: "map (\<lambda>r. (da_id r, da_fileName r, da_fileType r)) rs
            = map (\<lambda>f. (fd_id f, fd_fileName f, fd_type f)) files"
    using batch_loop_ids [of lib w "[]" files] by blast
  from m have len: "length rs = length files"
    by (rule map_eq_imp_length_eq)
  have "da_id (rs ! i) = fd_id (files ! i)
        \<and> da_fileName (rs ! i) = fd_fileName (files ! i)
        \<and> da_fileType (rs ! i) = fd_type (files ! i)" if "i < length files" for i
  proof -
    have "map (\<lambda>r. (da_id r, da_fileName r, da_fileType r)) rs ! i
          = map (\<lambda>f. (fd_id f, fd_fileName f, fd_type f)) files ! i"
      by (simp only: m)
    with that len show ?thesis by simp
  qed
  with l len show ?thesis
    by (auto simp: processBatchDocuments_def)
qed

lemma example_batch_run:
  "fst (processBatchDocuments (example_lib ''hello'')
      (example_world [(''f'', example_entry ''one two   three'' 0 True),
                      (''g'', example_entry ''  '' 0 True)] 5)
      [example_file ''g'' ''text/plain'', example_file ''h'' ''text/plain'',
       example_file ''f'' ''text/plain'']) =
   Inr [error_result (example_file ''g'' ''text/plain'')
          (Error ''Failed to process document: No text content found in document'') 5,
        error_result (example_file ''h'' ''text/plain'')
          (Error ''Failed to process document: Failed to extract text from document'') 5,
        \<lparr>da_id = ''id-f'', da_fileName = ''doc-f'',
         da_fileType = ''text/plain'', da_processingTime = 0,
         da_textContent = ''one two   three'', da_wordCount = 3,
         da_pageCount = Some 1,
         da_sentiment = Some (JStr ''Analysis completed''),
         da_topics = [JStr ''Document analysis''],
         da_summary = JStr ''Document processed successfully'',
         da_entities = [],
         da_keyInsights = [JStr ''Document contains valuable content''],
         da_analyzedAt = 5, da_confidence = JNum (7 / 10)\<rparr>]"
  by (simp add: run_defs fs_defs example_defs wordCount_def split_ws_def estimatePageCount_div)

theorem batch_one_result_per_file_witness:
  "\<exists>rs w'. processBatchDocuments (example_lib ''hello'')
      (example_world [(''f'', example_entry ''one two   three'' 0 True),
                      (''g'', example_entry ''  '' 0 True)] 5)
      [example_file ''g'' ''text/plain'', example_file ''h'' ''text/plain'',
       example_file ''f'' ''text/plain''] = (Inr rs, w')
     \<and> length rs = 3
     \<and> map da_id rs = [''id-g'', ''id-h'', ''id-f'']
     \<and> map da_sentiment rs
         = [Some (JStr ''Error''), Some (JStr ''Error''), Some (JStr ''Analysis completed'')]"
proof -
  let ?files = "[example_file ''g'' ''text/plain'', example_file ''h'' ''text/plain'',
       example_file ''f'' ''text/plain'']"
  obtain rs w' where r: "processBatchDocuments (example_lib ''hello'')
      (example_world [(''f'', example_entry ''one two   three'' 0 True),
                      (''g'', example_entry ''  '' 0 True)] 5) ?files = (Inr rs, w')"
    and len: "length rs = length ?files"
    using batch_one_result_per_file [of "example_lib ''hello''" _ ?files] by blast
  from r example_batch_run have "rs = [error_result (example_file ''g'' ''text/plain'')
          (Error ''Failed to process document: No text content found in document'') 5,
        error_result (example_file ''h'' ''text/plain'')
          (Error ''Failed to process document: Failed to extract text from document'') 5,
        \<lparr>da_id = ''id-f'', da_fileName = ''doc-f'',
         da_fileType = ''text/plain'', da_processingTime = 0,
         da_textContent = ''one two   three'', da_wordCount = 3,
         da_pageCount = Some 1,
         da_sentiment = Some (JStr ''Analysis completed''),
         da_topics = [JStr ''Document analysis''],
         da_summary = JStr ''Document processed successfully'',
         da_entities = [],
         da_keyInsights = [JStr ''Document contains valuable content''],
         da_analyzedAt = 5, da_confidence = JNum (7 / 10)\<rparr>]"
    by simp
  then have "map da_id rs = [''id-g'', ''id-h'', ''id-f'']"
    "map da_sentiment rs
         = [Some (JStr ''Error''), Some (JStr ''Error''), Some (JStr ''Analysis completed'')]"
    by (simp_all add: error_result_def example_file_def)
  with r len show ?thesis by auto
qed


section \<open>Empty content\<close>


lemma processDocumentAction_invocations_blank:
  assumes "process_try lib (snd (date_now w)) fd (fst (date_now w)) = (res, w1)"
  shows "invocations (snd (processDocumentAction lib w fd)) = invocations w1"
    and "trace (snd (processDocumentAction lib w fd)) = trace w1 @ [Unlink (fd_filePath fd)]"
  using assms
  by (simp_all add: processDocumentAction_eq delete_counters delete_trace split: sum.splits)

text \<open>
  C5. When the text extracted from a file is empty or consists of whitespace only,
  \<open>processDocumentAction\<close> fails with the empty-content error, and it does so without a
  call to the model: no invocation is counted and no \<open>Invoke\<close> event is added to the trace.
  The loop of \<open>processBatchDocuments\<close> turns the failure into an error record with
  confidence 0, sentiment \<open>Error\<close> and a summary that ends with the error text, and goes
  on with the remaining files.
\<close>

theorem blank_text_fails_before_model:
  assumes "extractTextFromFile lib (snd (date_now w)) (fd_filePath fd) (fd_type fd)
             = (Inr extracted, w1)"
    and "\<forall>c \<in> set extracted. is_space c"
  shows "fst (processDocumentAction lib w fd)
           = Inl (Error ''Failed to process document: No text content found in document'')
     \<and> invocations (snd (processDocumentAction lib w fd)) = invocations w
     \<and> (\<forall>x. Invoke x \<in> set (trace (snd (processDocumentAction lib w fd)))
              \<longrightarrow> Invoke x \<in> set (trace w))
     \<and> (\<exists>r w'. batch_step lib w fd = (Inr r, w')
           \<and> da_id r = fd_id fd
           \<and> da_confidence r = JNum 0
           \<and> da_sentiment r = Some (JStr ''Error'')
           \<and> da_summary r = JStr (''Processing failed: ''
                 @ ''Failed to process document: No text content found in document'')
           \<and> (\<forall>acc rest. batch_loop lib w acc (fd # rest) = batch_loop lib w' (acc @ [r]) rest))"
proof -
  let ?w0 = "snd (date_now w)"
  have t: "process_try lib ?w0 fd (fst (date_now w))
             = (Inl (Error ''No text content found in document''), w1)"
    using assms by (rule process_try_blank)
  have a: "fst (processDocumentAction lib w fd)
           = Inl (Error ''Failed to process document: No text content found in document'')"
    by (simp add: processDocumentAction_result t message_or_def)
  have "invocations w1 = invocations ?w0"
    using extract_invocations [of lib ?w0 "fd_filePath fd" "fd_type fd"] assms(1) by simp
  then have b: "invocations (snd (processDocumentAction lib w fd)) = invocations w"
    by (simp add: processDocumentAction_invocations_blank(1) [OF t] date_now_fields)
  have "trace w1 = trace w \<or> trace w1 = trace w @ [ReadFile (fd_filePath fd)]"
    using extract_trace [of lib ?w0 "fd_filePath fd" "fd_type fd"] assms(1)
    by (simp add: date_now_fields)
  then have c: "\<forall>x. Invoke x \<in> set (trace (snd (processDocumentAction lib w fd)))
              \<longrightarrow> Invoke x \<in> set (trace w)"
    by (auto simp: processDocumentAction_invocations_blank(2) [OF t])
  obtain w2 where p: "processDocumentAction lib w fd
      = (Inl (Error ''Failed to process document: No text content found in document''), w2)"
    using a by (cases "processDocumentAction lib w fd") simp
  define r where "r = error_result fd
      (Error ''Failed to process document: No text content found in document'')
      (fst (date_now (snd (deleteUploadedFile w2 (fd_filePath fd)))))"
  define w' where "w' = snd (date_now (snd (deleteUploadedFile w2 (fd_filePath fd))))"
  have s: "batch_step lib w fd = (Inr r, w')"
    by (simp add: batch_step_eq p r_def w'_def)
  have d: "da_id r = fd_id fd" "da_confidence r = JNum 0" "da_sentiment r = Some (JStr ''Error'')"
    "da_summary r = JStr (''Processing failed: ''
                 @ ''Failed to process document: No text content found in document'')"
    by (simp_all add: r_def error_result_def message_or_def)
  have e: "\<forall>acc rest. batch_loop lib w acc (fd # rest) = batch_loop lib w' (acc @ [r]) rest"
    by (simp add: s)
  from a b c s d e show ?thesis by blast
qed

lemma example_blank_extract:
  "extractTextFromFile (example_lib ''hello'')
      (snd (date_now (example_world [(''g'', example_entry ''  '' 0 True)] 5)))
      (fd_filePath (example_file ''g'' ''text/plain'')) (fd_type (example_file ''g'' ''text/plain''))
   = (Inr ''  '',
      log_event (ReadFile ''g'') (snd (date_now (example_world [(''g'', example_entry ''  '' 0 True)] 5))))"
  by (simp add: run_defs fs_defs example_defs)

theorem blank_text_fails_before_model_witness:
  "fst (processDocumentAction (example_lib ''hello'')
          (example_world [(''g'', example_entry ''  '' 0 True)] 5)
          (example_file ''g'' ''text/plain''))
     = Inl (Error ''Failed to process document: No text content found in document'')
   \<and> invocations (snd (processDocumentAction (example_lib ''hello'')
          (example_world [(''g'', example_entry ''  '' 0 True)] 5)
          (example_file ''g'' ''text/plain''))) = 0
   \<and> (\<exists>r w'. batch_step (example_lib ''hello'')
          (example_world [(''g'', example_entry ''  '' 0 True)] 5)
          (example_file ''g'' ''text/plain'') = (Inr r, w')
        \<and> da_confidence r = JNum 0 \<and> da_sentiment r = Some (JStr ''Error''))"
proof -
  have blank: "\<forall>c \<in> set ''  ''. is_space c"
    by (simp add: is_space_def)
  have "invocations (example_world [(''g'', example_entry ''  '' 0 True)] 5) = 0"
    by (simp add: example_world_def)
  with blank_text_fails_before_model [OF example_blank_extract blank]
  show ?thesis by auto
qed


section \<open>Deletion never propagates\<close>



lemma example_locked_run:
  "fst (processDocumentAction (example_lib ''hello'')
      (example_world [(''f'', example_entry ''one two   three'' 0 False)] 5)
      (example_file ''f'' ''text/plain''))
   = fst (processDocumentAction (example_lib ''hello'')
      (example_world [(''f'', example_entry ''one two   three'' 0 True)] 5)
      (example_file ''f'' ''text/plain''))
   \<and> trace (snd (processDocumentAction (example_lib ''hello'')
      (example_world [(''f'', example_entry ''one two   three'' 0 False)] 5)
      (example_file ''f'' ''text/plain'')))
     = [ReadFile ''f'', Invoke (Inl ''one two   three''), Unlink ''f'']
   \<and> uploads (snd (processDocumentAction (example_lib ''hello'')
      (example_world [(''f'', example_entry ''one two   three'' 0 False)] 5)
      (example_file ''f'' ''text/plain'')))
     = Some [(''f'', example_entry ''one two   three'' 0 False)]"
  by (simp add: run_defs fs_defs example_defs wordCount_def split_ws_def estimatePageCount_div)



section \<open>Unsupported types\<close>


lemma extract_unsupported:
  assumes "t \<notin> set allowedTypes"
  shows "extract_switch lib w p t = (Inl (Error (''Unsupported file type: '' @ t)), w)"
    and "extractTextFromFile lib w p t = (Inl (Error ''Failed to extract text from document''), w)"
proof -
  from assms have n: "t \<noteq> ''application/pdf''"
    "t \<noteq> ''application/vnd.openxmlformats-officedocument.wordprocessingml.document''"
    "t \<noteq> ''application/msword''" "t \<noteq> ''text/plain''"
    by (auto simp: allowedTypes_def)
  then show s: "extract_switch lib w p t = (Inl (Error (''Unsupported file type: '' @ t)), w)"
    by (simp add: extract_switch_def)
  show "extractTextFromFile lib w p t = (Inl (Error ''Failed to extract text from document''), w)"
    by (simp add: extractTextFromFile_def s)
qed

text \<open>
  C4. The type \<open>image/png\<close> is outside the four supported types. The \<open>switch\<close> throws an
  error that names it, but the \<open>catch\<close> around the \<open>switch\<close> replaces that error: what
  \<open>extractTextFromFile\<close> hands to its caller is the fixed extraction error, and the message
  the batch finally reports does not name the type either.
\<close>

theorem unsupported_type_error_is_generic:
  "fst (extract_switch lib w ''scan.png'' ''image/png'')
     = Inl (Error ''Unsupported file type: image/png'')
   \<and> fst (extractTextFromFile lib w ''scan.png'' ''image/png'')
     = Inl (Error ''Failed to extract text from document'')
   \<and> fst (processDocumentAction lib w (example_file ''scan.png'' ''image/png''))
     = Inl (Error ''Failed to process document: Failed to extract text from document'')"
proof -
  have n: "''image/png'' \<notin> set allowedTypes"
    by (simp add: allowedTypes_def)
  have "process_try lib (snd (date_now w)) (example_file ''scan.png'' ''image/png'') (fst (date_now w))
        = (Inl (Error ''Failed to extract text from document''), snd (date_now w))"
    by (simp add: process_try_def example_file_def extract_unsupported(2) [OF n])
  then have "fst (processDocumentAction lib w (example_file ''scan.png'' ''image/png''))
     = Inl (Error ''Failed to process document: Failed to extract text from document'')"
    by (simp add: processDocumentAction_result message_or_def)
  with extract_unsupported [OF n, of lib w "''scan.png''"] show ?thesis by simp
qed


section \<open>The reply parser\<close>



lemma dropWhile_skip: "a \<notin> set xs \<Longrightarrow> dropWhile (\<lambda>c. c \<noteq> a) (xs @ a # ys) = a # ys"
  by (induction xs) auto

lemma jsonMatch_Some_iff:
  "jsonMatch s = Some m \<longleftrightarrow>
     (\<exists>pre body post. s = pre @ [CHR ''{''] @ body @ [CHR ''}''] @ post
        \<and> CHR ''{'' \<notin> set pre \<and> CHR ''}'' \<notin> set post
        \<and> m = [CHR ''{''] @ body @ [CHR ''}''])"
proof
  assume a: "jsonMatch s = Some m"
  let ?pre = "takeWhile (\<lambda>c. c \<noteq> CHR ''{'') s"
  obtain b rest where d: "dropWhile (\<lambda>c. c \<noteq> CHR ''{'') s = b # rest"
    using a by (cases "dropWhile (\<lambda>c. c \<noteq> CHR ''{'') s") (simp_all add: jsonMatch_def)
  have b: "b = CHR ''{''"
    using hd_dropWhile [of "\<lambda>c. c \<noteq> CHR ''{''" s] d by simp
  have s: "s = ?pre @ b # rest"
    using takeWhile_dropWhile_id [of "\<lambda>c. c \<noteq> CHR ''{''" s] d by simp
  have pre: "CHR ''{'' \<notin> set ?pre"
    by (auto dest: set_takeWhileD)
  from a d have r: "CHR ''}'' \<in> set rest"
    and m: "m = b # rev (dropWhile (\<lambda>c. c \<noteq> CHR ''}'') (rev rest))"
    by (auto simp: jsonMatch_def split: if_splits)
  let ?post = "rev (takeWhile (\<lambda>c. c \<noteq> CHR ''}'') (rev rest))"
  from r have ne: "dropWhile (\<lambda>c. c \<noteq> CHR ''}'') (rev rest) \<noteq> []"
    by (simp add: dropWhile_eq_Nil_conv)
  then obtain x xs where dx: "dropWhile (\<lambda>c. c \<noteq> CHR ''}'') (rev rest) = x # xs"
    by (cases "dropWhile (\<lambda>c. c \<noteq> CHR ''}'') (rev rest)") auto
  have x: "x = CHR ''}''"
    using hd_dropWhile [of "\<lambda>c. c \<noteq> CHR ''}''" "rev rest"] dx by simp
  have "rev rest = takeWhile (\<lambda>c. c \<noteq> CHR ''}'') (rev rest) @ x # xs"
    using takeWhile_dropWhile_id [of "\<lambda>c. c \<noteq> CHR ''}''" "rev rest"] dx by simp
  then have "rev (rev rest) = rev (takeWhile (\<lambda>c. c \<noteq> CHR ''}'') (rev rest) @ x # xs)"
    by simp
  then have rest: "rest = rev xs @ [CHR ''}''] @ ?post"
    by (simp add: x)
  have post: "CHR ''}'' \<notin> set ?post"
    by (auto dest: set_takeWhileD)
  have "s = ?pre @ [CHR ''{''] @ rev xs @ [CHR ''}''] @ ?post"
    using s b rest by simp
  moreover have "m = [CHR ''{''] @ rev xs @ [CHR ''}'']"
    using m b dx x by simp
  ultimately show "\<exists>pre body post. s = pre @ [CHR ''{''] @ body @ [CHR ''}''] @ post
        \<and> CHR ''{'' \<notin> set pre \<and> CHR ''}'' \<notin> set post
        \<and> m = [CHR ''{''] @ body @ [CHR ''}'']"
    using pre post by blast
next
  assume "\<exists>pre body post. s = pre @ [CHR ''{''] @ body @ [CHR ''}''] @ post
        \<and> CHR ''{'' \<notin> set pre \<and> CHR ''}'' \<notin> set post
        \<and> m = [CHR ''{''] @ body @ [CHR ''}'']"
  then obtain pre body post where s: "s = pre @ [CHR ''{''] @ body @ [CHR ''}''] @ post"
    and pre: "CHR ''{'' \<notin> set pre" and post: "CHR ''}'' \<notin> set post"
    and m: "m = [CHR ''{''] @ body @ [CHR ''}'']"
    by blast
  have d: "dropWhile (\<lambda>c. c \<noteq> CHR ''{'') s = CHR ''{'' # (body @ [CHR ''}''] @ post)"
    unfolding s using pre by (simp add: dropWhile_skip)
  have "dropWhile (\<lambda>c. c \<noteq> CHR ''}'') (rev post @ CHR ''}'' # rev body) = CHR ''}'' # rev body"
    using post by (simp add: dropWhile_skip)
  then have e: "rev (dropWhile (\<lambda>c. c \<noteq> CHR ''}'') (rev (body @ [CHR ''}''] @ post)))
             = body @ [CHR ''}'']"
    by simp
  show "jsonMatch s = Some m"
    unfolding jsonMatch_def d using e m by simp
qed

lemma brace_pair_found:
  "dropWhile (\<lambda>c. c \<noteq> CHR ''{'') (pre @ CHR ''{'' # mid @ CHR ''}'' # post) \<noteq> []
   \<and> CHR ''}'' \<in> set (tl (dropWhile (\<lambda>c. c \<noteq> CHR ''{'') (pre @ CHR ''{'' # mid @ CHR ''}'' # post)))"
  by (induction pre) auto

lemma jsonMatch_None_iff:
  "jsonMatch s = None \<longleftrightarrow>
     \<not> (\<exists>pre mid post. s = pre @ [CHR ''{''] @ mid @ [CHR ''}''] @ post)"
proof
  assume n: "jsonMatch s = None"
  show "\<not> (\<exists>pre mid post. s = pre @ [CHR ''{''] @ mid @ [CHR ''}''] @ post)"
  proof
    assume "\<exists>pre mid post. s = pre @ [CHR ''{''] @ mid @ [CHR ''}''] @ post"
    then obtain pre mid post where s: "s = pre @ CHR ''{'' # mid @ CHR ''}'' # post"
      by auto
    obtain b rest where d: "dropWhile (\<lambda>c. c \<noteq> CHR ''{'') s = b # rest"
      using brace_pair_found [of pre mid post] s
      by (cases "dropWhile (\<lambda>c. c \<noteq> CHR ''{'') s") auto
    then have "CHR ''}'' \<in> set rest"
      using brace_pair_found [of pre mid post] s by simp
    with d n show False by (simp add: jsonMatch_def)
  qed
next
  assume a: "\<not> (\<exists>pre mid post. s = pre @ [CHR ''{''] @ mid @ [CHR ''}''] @ post)"
  show "jsonMatch s = None"
  proof (cases "jsonMatch s")
    case None
    then show ?thesis .
  next
    case (Some m)
    then have "\<exists>pre mid post. s = pre @ [CHR ''{''] @ mid @ [CHR ''}''] @ post"
      unfolding jsonMatch_Some_iff by blast
    with a show ?thesis by blast
  qed
qed

lemma parse_reply_eq:
  "parse_reply lib content =
     (case JSON_parse lib (case jsonMatch (cleanResponse content) of
                             Some m \<Rightarrow> m | None \<Rightarrow> cleanResponse content) of
        Inr analysis \<Rightarrow> analysis
      | Inl parseError \<Rightarrow> fallback_analysis)"
  by (simp add: parse_reply_def Let_def split: option.splits)

lemma remove_all_no_hd:
  "pat \<noteq> [] \<Longrightarrow> hd pat \<notin> set a \<Longrightarrow> remove_all pat (a @ b) = a @ remove_all pat b"
proof (induction a)
  case Nil
  then show ?case by simp
next
  case (Cons c a)
  then have "take (length pat) (c # a @ b) \<noteq> pat"
    by (cases pat) auto
  with Cons show ?case by simp
qed

lemma remove_all_keep: "pat \<noteq> [] \<Longrightarrow> hd pat \<notin> set a \<Longrightarrow> remove_all pat a = a"
  using remove_all_no_hd [of pat a "[]"] by simp

lemma dropWhile_all:
  "\<forall>c \<in> set l. P c \<Longrightarrow> \<not> P x \<Longrightarrow> dropWhile P (l @ x # xs) = x # xs"
  by (induction l) auto

lemma trim_core:
  assumes "obj \<noteq> []" "\<not> is_space (hd obj)" "\<not> is_space (last obj)"
    and "\<forall>c \<in> set l. is_space c" "\<forall>c \<in> set r. is_space c"
  shows "trim (l @ obj @ r) = obj"
proof -
  obtain x xs where o: "obj = x # xs" using assms(1) by (cases obj) auto
  have a: "dropWhile is_space (l @ obj @ r) = obj @ r"
    using assms(2,4) o dropWhile_all [of l is_space x "xs @ r"] by simp
  obtain y ys where ro: "rev obj = y # ys" using assms(1) by (cases "rev obj") auto
  then have "y = last obj" using assms(1) by (metis hd_rev list.sel(1))
  with assms(3) have "\<not> is_space y" by simp
  then have "dropWhile is_space (rev r @ rev obj) = rev obj"
    using assms(5) ro dropWhile_all [of "rev r" is_space y ys] by simp
  with a show ?thesis by (simp add: trim_def)
qed



lemma fenced_clean:
  assumes "CHR 0x60 \<notin> set body"
  shows "cleanResponse (fence @ ''json'' @ [CHR 0x0A] @ [CHR ''{''] @ body @ [CHR ''}'']
                          @ [CHR 0x0A] @ fence)
         = [CHR ''{''] @ body @ [CHR ''}'']"
proof -
  let ?obj = "[CHR ''{''] @ body @ [CHR ''}'']"
  let ?a = "[CHR 0x0A] @ ?obj @ [CHR 0x0A]"
  have nb: "CHR 0x60 \<notin> set ?a" using assms by simp
  have 1: "remove_all (fence @ ''json'') (fence @ ''json'' @ ?a @ fence)
           = remove_all (fence @ ''json'') (?a @ fence)"
    by (simp add: fence_def)
  have 2: "remove_all (fence @ ''json'') (?a @ fence) = ?a @ remove_all (fence @ ''json'') fence"
    using nb by (intro remove_all_no_hd) (simp_all add: fence_def)
  have 3: "remove_all (fence @ ''json'') fence = fence"
    by (simp add: fence_def)
  have 4: "remove_all fence (?a @ fence) = ?a @ remove_all fence fence"
    using nb by (intro remove_all_no_hd) (simp_all add: fence_def)
  have 5: "remove_all fence fence = []"
    by (simp add: fence_def)
  have 6: "trim ([CHR 0x0A] @ ?obj @ [CHR 0x0A]) = ?obj"
    by (rule trim_core) (simp_all add: is_space_def)
  have "fence @ ''json'' @ [CHR 0x0A] @ [CHR ''{''] @ body @ [CHR ''}''] @ [CHR 0x0A] @ fence
        = fence @ ''json'' @ ?a @ fence"
    by simp
  then show ?thesis
    unfolding cleanResponse_def using 1 2 3 4 5 6 by simp
qed

lemma jsonMatch_object:
  "jsonMatch ([CHR ''{''] @ body @ [CHR ''}'']) = Some ([CHR ''{''] @ body @ [CHR ''}''])"
  unfolding jsonMatch_Some_iff
  by (rule exI [of _ "[]"], rule exI [of _ body], rule exI [of _ "[]"]) simp

text \<open>
  C3, as amended. The parser removes every \<open>```json\<close>, then every \<open>```\<close>, and trims. What it
  hands to \<open>JSON.parse\<close> is the stretch of the cleaned text from its first \<open>{\<close> to its last
  \<open>}\<close> when a \<open>}\<close> follows the first \<open>{\<close>, and the whole cleaned text otherwise. For a reply
  that is one object without backquotes between \<open>```json\<close> and \<open>```\<close> lines, that is the
  object itself, unchanged.
\<close>

theorem reply_parser_first_to_last_brace:
  "parse_reply lib content =
     (case JSON_parse lib (case jsonMatch (cleanResponse content) of
                             Some m \<Rightarrow> m | None \<Rightarrow> cleanResponse content) of
        Inr analysis \<Rightarrow> analysis
      | Inl parseError \<Rightarrow> fallback_analysis)
   \<and> cleanResponse content = trim (remove_all fence (remove_all (fence @ ''json'') content))
   \<and> (jsonMatch s = Some m \<longleftrightarrow>
        (\<exists>pre body post. s = pre @ [CHR ''{''] @ body @ [CHR ''}''] @ post
           \<and> CHR ''{'' \<notin> set pre \<and> CHR ''}'' \<notin> set post
           \<and> m = [CHR ''{''] @ body @ [CHR ''}'']))
   \<and> (jsonMatch s = None \<longleftrightarrow>
        \<not> (\<exists>pre mid post. s = pre @ [CHR ''{''] @ mid @ [CHR ''}''] @ post))
   \<and> (CHR 0x60 \<notin> set inner \<longrightarrow>
        parse_reply lib (fence @ ''json'' @ [CHR 0x0A] @ [CHR ''{''] @ inner @ [CHR ''}'']
                           @ [CHR 0x0A] @ fence)
        = (case JSON_parse lib ([CHR ''{''] @ inner @ [CHR ''}'']) of
             Inr analysis \<Rightarrow> analysis
           | Inl parseError \<Rightarrow> fallback_analysis))"
proof -
  have e: "CHR 0x60 \<notin> set inner \<longrightarrow>
        parse_reply lib (fence @ ''json'' @ [CHR 0x0A] @ [CHR ''{''] @ inner @ [CHR ''}'']
                           @ [CHR 0x0A] @ fence)
        = (case JSON_parse lib ([CHR ''{''] @ inner @ [CHR ''}'']) of
             Inr analysis \<Rightarrow> analysis
           | Inl parseError \<Rightarrow> fallback_analysis)"
  proof
    assume "CHR 0x60 \<notin> set inner"
    then have c: "cleanResponse (fence @ ''json'' @ [CHR 0x0A] @ [CHR ''{''] @ inner @ [CHR ''}'']
                          @ [CHR 0x0A] @ fence) = [CHR ''{''] @ inner @ [CHR ''}'']"
      by (rule fenced_clean)
    show "parse_reply lib (fence @ ''json'' @ [CHR 0x0A] @ [CHR ''{''] @ inner @ [CHR ''}'']
                           @ [CHR 0x0A] @ fence)
        = (case JSON_parse lib ([CHR ''{''] @ inner @ [CHR ''}'']) of
             Inr analysis \<Rightarrow> analysis
           | Inl parseError \<Rightarrow> fallback_analysis)"
      unfolding parse_reply_eq c jsonMatch_object by simp
  qed
  from parse_reply_eq [of lib content] cleanResponse_def [of content]
    jsonMatch_Some_iff [of s m] jsonMatch_None_iff [of s] e
  show ?thesis by blast
qed

theorem reply_parser_first_to_last_brace_witness:
  "parse_reply (example_lib [])
     (fence @ ''json'' @ [CHR 0x0A] @ ''{\"sentiment\":\"Positive\"}'' @ [CHR 0x0A] @ fence)
   = JObj [(''sentiment'', JStr ''Positive'')]"
proof -
  have "CHR 0x60 \<notin> set ''\"sentiment\":\"Positive\"''" by simp
  with reply_parser_first_to_last_brace
    [of "example_lib []" _ _ _ "''\"sentiment\":\"Positive\"''"]
  have "parse_reply (example_lib [])
          (fence @ ''json'' @ [CHR 0x0A] @ [CHR ''{''] @ ''\"sentiment\":\"Positive\"'' @ [CHR ''}'']
             @ [CHR 0x0A] @ fence)
        = (case JSON_parse (example_lib []) ([CHR ''{''] @ ''\"sentiment\":\"Positive\"'' @ [CHR ''}'']) of
             Inr analysis \<Rightarrow> analysis
           | Inl parseError \<Rightarrow> fallback_analysis)"
    by blast
  then show ?thesis by (simp add: example_lib_def example_parse_def)
qed

theorem reply_parser_first_balanced_counterexample:
  "jsonMatch ''{\"sentiment\":\"Positive\"} {\"sentiment\":\"Negative\"}''
     = Some ''{\"sentiment\":\"Positive\"} {\"sentiment\":\"Negative\"}''
   \<and> first_balanced ''{\"sentiment\":\"Positive\"} {\"sentiment\":\"Negative\"}''
     = Some ''{\"sentiment\":\"Positive\"}''
   \<and> parse_reply (example_lib []) ''{\"sentiment\":\"Positive\"} {\"sentiment\":\"Negative\"}''
     = fallback_analysis
   \<and> spec_parse_reply (example_lib []) ''{\"sentiment\":\"Positive\"} {\"sentiment\":\"Negative\"}''
     = JObj [(''sentiment'', JStr ''Positive'')]"
  by (simp add: jsonMatch_def parse_reply_def spec_parse_reply_def cleanResponse_def fence_def
      trim_def is_space_def example_lib_def example_parse_def)


section \<open>Unparseable replies\<close>


lemma build_result_fallback:
  "build_result w fd pt extracted fallback_analysis =
     (Inr \<lparr>da_id = fd_id fd, da_fileName = fd_fileName fd, da_fileType = fd_type fd,
            da_processingTime = pt, da_textContent = take 1000 extracted,
            da_wordCount = wordCount extracted,
            da_pageCount = Some (estimatePageCount extracted),
            da_sentiment = Some (JStr ''Analysis completed''),
            da_topics = [JStr ''Document analysis''],
            da_summary = JStr ''Document processed successfully'',
            da_entities = [],
            da_keyInsights = [JStr ''Document contains valuable content''],
            da_analyzedAt = fst (date_now w),
            da_confidence = JNum (7 / 10)\<rparr>, snd (date_now w))"
  by (simp add: build_result_def get_prop_def fallback_analysis_def or_default_def
      split: prod.splits)

text \<open>
  C2, as amended. When the text was extracted and is not blank, the splitter and the model
  returned, and \<open>JSON.parse\<close> throws on the text the parser hands it,
  \<open>processDocumentAction\<close> returns the fallback record: sentiment \<open>Analysis completed\<close>,
  confidence 0.7, one generic topic, the generic summary, no entities, one generic
  insight.
\<close>

theorem unparseable_reply_gives_fallback:
  assumes "extractTextFromFile lib (snd (date_now w)) (fd_filePath fd) (fd_type fd)
             = (Inr extracted, w1)"
    and "\<not> (\<forall>c \<in> set extracted. is_space c)"
    and "splitText lib extracted = Inr chunks"
    and "invoke lib (invocations w1) (if length chunks > 1 then Inr chunks else Inl extracted)
           = Inr content"
    and "JSON_parse lib (case jsonMatch (cleanResponse content) of
                           Some m \<Rightarrow> m | None \<Rightarrow> cleanResponse content) = Inl parseError"
  shows "\<exists>r w'. processDocumentAction lib w fd = (Inr r, w')
           \<and> da_sentiment r = Some (JStr ''Analysis completed'')
           \<and> da_confidence r = JNum (7 / 10)
           \<and> da_topics r = [JStr ''Document analysis'']
           \<and> da_summary r = JStr ''Document processed successfully''
           \<and> da_entities r = []
           \<and> da_keyInsights r = [JStr ''Document contains valuable content'']"
proof -
  have nb: "extracted \<noteq> []" "trim extracted \<noteq> []"
    using assms(2) trim_blank [of extracted] by auto
  have p: "parse_reply lib content = fallback_analysis"
    by (simp add: parse_reply_eq assms(5))
  let ?w2 = "log_event (Invoke (if length chunks > 1 then Inr chunks else Inl extracted))
               (w1\<lparr>invocations := Suc (invocations w1)\<rparr>)"
  obtain now w3 where d: "date_now ?w2 = (now, w3)" by (cases "date_now ?w2")
  have "process_try lib (snd (date_now w)) fd (fst (date_now w))
        = build_result w3 fd (now - fst (date_now w)) extracted fallback_analysis"
    unfolding process_try_def
    using assms(1,3,4) nb p d by (simp add: Let_def)
  then obtain r w2 where t: "process_try lib (snd (date_now w)) fd (fst (date_now w)) = (Inr r, w2)"
    and f: "da_sentiment r = Some (JStr ''Analysis completed'')"
      "da_confidence r = JNum (7 / 10)"
      "da_topics r = [JStr ''Document analysis'']"
      "da_summary r = JStr ''Document processed successfully''"
      "da_entities r = []"
      "da_keyInsights r = [JStr ''Document contains valuable content'']"
    by (simp add: build_result_fallback)
  have "processDocumentAction lib w fd = (Inr r, snd (deleteUploadedFile w2 (fd_filePath fd)))"
    by (simp add: processDocumentAction_eq t)
  with f show ?thesis by blast
qed

lemma example_extract:
  "extractTextFromFile (example_lib reply)
      (snd (date_now (example_world [(''f'', example_entry ''one two   three'' 0 True)] 5)))
      (fd_filePath (example_file ''f'' ''text/plain'')) (fd_type (example_file ''f'' ''text/plain''))
   = (Inr ''one two   three'',
      log_event (ReadFile ''f'')
        (snd (date_now (example_world [(''f'', example_entry ''one two   three'' 0 True)] 5))))"
  by (simp add: run_defs fs_defs example_defs)

theorem unparseable_reply_gives_fallback_witness:
  "\<exists>r w'. processDocumentAction (example_lib ''I cannot analyze this.'')
             (example_world [(''f'', example_entry ''one two   three'' 0 True)] 5)
             (example_file ''f'' ''text/plain'') = (Inr r, w')
           \<and> da_sentiment r = Some (JStr ''Analysis completed'')
           \<and> da_confidence r = JNum (7 / 10)
           \<and> da_topics r = [JStr ''Document analysis'']
           \<and> da_summary r = JStr ''Document processed successfully''
           \<and> da_entities r = []
           \<and> da_keyInsights r = [JStr ''Document contains valuable content'']"
proof (rule unparseable_reply_gives_fallback [OF example_extract])
  show "\<not> (\<forall>c \<in> set ''one two   three''. is_space c)"
    by (simp add: is_space_def)
  show "splitText (example_lib ''I cannot analyze this.'') ''one two   three''
        = Inr [''one two   three'']"
    by (simp add: example_lib_def)
  show "invoke (example_lib ''I cannot analyze this.'')
          (invocations (log_event (ReadFile ''f'')
             (snd (date_now (example_world [(''f'', example_entry ''one two   three'' 0 True)] 5)))))
          (if length [''one two   three''] > 1 then Inr [''one two   three'']
           else Inl ''one two   three'')
        = Inr ''I cannot analyze this.''"
    by (simp add: example_lib_def)
  show "JSON_parse (example_lib ''I cannot analyze this.'')
          (case jsonMatch (cleanResponse ''I cannot analyze this.'') of
             Some m \<Rightarrow> m | None \<Rightarrow> cleanResponse ''I cannot analyze this.'')
        = Inl (Error ''SyntaxError'')"
    by (simp add: example_lib_def example_parse_def jsonMatch_def cleanResponse_def fence_def
        trim_def is_space_def)
qed

theorem non_object_reply_counterexample:
  "jsonMatch (cleanResponse ''42'') = None
   \<and> JSON_parse (example_lib ''42'') (cleanResponse ''42'') = Inr (JNum 42)
   \<and> fst (processDocumentAction (example_lib ''42'')
          (example_world [(''f'', example_entry ''one two   three'' 0 True)] 5)
          (example_file ''f'' ''text/plain''))
     = Inr \<lparr>da_id = ''id-f'', da_fileName = ''doc-f'',
            da_fileType = ''text/plain'', da_processingTime = 0,
            da_textContent = ''one two   three'', da_wordCount = 3,
            da_pageCount = Some 1, da_sentiment = None, da_topics = [],
            da_summary = JStr ''No summary available'', da_entities = [],
            da_keyInsights = [], da_analyzedAt = 5,
            da_confidence = JNum (7 / 10)\<rparr>"
  by (simp add: run_defs fs_defs example_defs wordCount_def split_ws_def estimatePageCount_div)

lemma null_reply_throws:
  "fst (processDocumentAction (example_lib ''null'')
          (example_world [(''f'', example_entry ''one two   three'' 0 True)] 5)
          (example_file ''f'' ''text/plain''))
     = Inl (Error (''Failed to process document: ''
                   @ ''Cannot read properties of null (reading '' @ [CHR 0x27] @ ''sentiment''
                   @ [CHR 0x27] @ '')''))"
  by (simp add: run_defs fs_defs example_defs)


section \<open>The upload route: outcomes\<close>


lemma upload_step_oversize:
  "exceeds (uf_size f) M \<Longrightarrow>
     upload_step lib M w f = (Failure (uf_name f) ''File size exceeds limit (10MB)'', w)"
  by (simp add: upload_step_def)

lemma upload_step_bad_type:
  "\<not> exceeds (uf_size f) M \<Longrightarrow> uf_type f \<notin> set allowedTypes \<Longrightarrow>
     upload_step lib M w f = (Failure (uf_name f) ''Unsupported file type'', w)"
  by (simp add: upload_step_def)

lemma save_file_success:
  "save_file lib w f = (Inr r, w') \<Longrightarrow> success r"
  by (auto simp: save_file_def Let_def split: sum.splits prod.splits)

lemma upload_step_failure_iff:
  "\<not> success (fst (upload_step lib M w f)) \<longleftrightarrow>
     exceeds (uf_size f) M \<or> uf_type f \<notin> set allowedTypes \<or> isl (fst (save_file lib w f))"
proof (cases "exceeds (uf_size f) M \<or> uf_type f \<notin> set allowedTypes")
  case True
  then show ?thesis by (auto simp: upload_step_def)
next
  case False
  obtain r w1 where s: "save_file lib w f = (r, w1)" by (cases "save_file lib w f")
  show ?thesis
  proof (cases r)
    case (Inl e)
    with s False show ?thesis by (simp add: upload_step_def)
  next
    case (Inr saved)
    with s save_file_success [of lib w f saved w1] False show ?thesis
      by (simp add: upload_step_def)
  qed
qed

lemma upload_loop_results:
  "\<exists>outs. fst (upload_loop lib M w acc files) = acc @ outs
     \<and> list_all2 (\<lambda>f r. \<exists>wi. r = fst (upload_step lib M wi f)) files outs"
proof (induction files arbitrary: w acc)
  case Nil
  then show ?case by simp
next
  case (Cons f fs)
  obtain r w1 where s: "upload_step lib M w f = (r, w1)" by (cases "upload_step lib M w f")
  obtain outs where o: "fst (upload_loop lib M w1 (acc @ [r]) fs) = (acc @ [r]) @ outs"
    and l: "list_all2 (\<lambda>f r. \<exists>wi. r = fst (upload_step lib M wi f)) fs outs"
    using Cons.IH [of w1 "acc @ [r]"] by blast
  have "fst (upload_loop lib M w acc (f # fs)) = acc @ (r # outs)"
    using s o by simp
  moreover have "list_all2 (\<lambda>f r. \<exists>wi. r = fst (upload_step lib M wi f)) (f # fs) (r # outs)"
    using l s by (auto intro: exI [of _ w])
  ultimately show ?case by blast
qed

lemma cleanup_Inr: "fst (cleanupUploadsFolder w) = Inr ()"
  by (simp add: cleanupUploadsFolder_def split: prod.splits sum.splits)

lemma fs_stat_world: "snd (fs_stat w p) = log_event (Stat p) w"
  by (simp add: fs_stat_def split: option.splits)

lemma cleanup_loop_keeps_dir:
  "can_mkdir (snd (cleanup_loop w names)) = can_mkdir w
   \<and> (uploads (snd (cleanup_loop w names)) = None \<longleftrightarrow> uploads w = None)"
proof (induction names arbitrary: w)
  case Nil
  then show ?case by simp
next
  case (Cons n ns)
  obtain r where st: "fs_stat w n = (r, log_event (Stat n) w)"
    using fs_stat_world [of w n] by (cases "fs_stat w n") simp
  let ?w1 = "log_event (Stat n) w"
  let ?w2 = "snd (date_now ?w1)"
  have w2: "can_mkdir ?w2 = can_mkdir w" "uploads ?w2 = uploads w"
    by (simp_all add: date_now_def log_event_def)
  show ?case
  proof (cases r)
    case (Inl e)
    with st show ?thesis by (simp add: log_event_def)
  next
    case (Inr mt)
    show ?thesis
    proof (cases "mt < fst (date_now ?w1) - 3600000")
      case False
      with st Inr Cons.IH [of ?w2] w2 show ?thesis
        by (simp add: split_beta)
    next
      case True
      obtain u w3 where un: "fs_unlink ?w2 n = (u, w3)" by (cases "fs_unlink ?w2 n")
      with fs_unlink_world [of ?w2 n]
      have w3: "can_mkdir w3 = can_mkdir w" "uploads w3 = None \<longleftrightarrow> uploads w = None"
        using w2 by (auto simp: log_event_def remove_entry_def)
      show ?thesis
      proof (cases u)
        case (Inl e)
        with st Inr True un w3 show ?thesis by (simp add: split_beta)
      next
        case (Inr v)
        with st \<open>r = Inr mt\<close> True un w3 Cons.IH [of w3] show ?thesis
          by (simp add: split_beta)
      qed
    qed
  qed
qed

lemma cleanup_keeps_dir:
  "can_mkdir (snd (cleanupUploadsFolder w)) = can_mkdir w
   \<and> (uploads (snd (cleanupUploadsFolder w)) = None \<longleftrightarrow> uploads w = None)"
proof (cases "uploads w")
  case None
  then show ?thesis
    by (simp add: cleanupUploadsFolder_def fs_readdir_def log_event_def)
next
  case (Some es)
  show ?thesis
  proof (cases "can_readdir w")
    case False
    with Some show ?thesis
      by (simp add: cleanupUploadsFolder_def fs_readdir_def log_event_def)
  next
    case True
    let ?w1 = "log_event Readdir w"
    obtain r w2 where l: "cleanup_loop ?w1 (map fst es) = (r, w2)"
      by (cases "cleanup_loop ?w1 (map fst es)")
    have c: "snd (cleanupUploadsFolder w) = w2"
      using Some True l by (cases r) (simp_all add: cleanupUploadsFolder_def fs_readdir_def)
    have "can_mkdir w2 = can_mkdir ?w1 \<and> (uploads w2 = None \<longleftrightarrow> uploads ?w1 = None)"
      using cleanup_loop_keeps_dir [of ?w1 "map fst es"] l by simp
    then show ?thesis
      unfolding c by (simp add: log_event_def)
  qed
qed

lemma POST_no_request: "fst (POST lib M w (Inl e)) = Response 500 (ErrorBody ''Upload failed'')"
  by (simp add: POST_def post_try_def)

lemma POST_no_files: "fst (POST lib M w (Inr [])) = Response 400 (ErrorBody ''No files uploaded'')"
  by (simp add: POST_def post_try_def)

lemma POST_files:
  assumes "files \<noteq> []"
  shows "fst (POST lib M w (Inr files)) =
     (if uploads w = None \<and> \<not> can_mkdir w then Response 500 (ErrorBody ''Upload failed'')
      else Response 200 (FilesBody True
             (fst (upload_loop lib M
                (if uploads w = None then snd (fs_mkdir (snd (cleanupUploadsFolder w)))
                 else snd (cleanupUploadsFolder w)) [] files))))"
proof -
  obtain w1 where c: "cleanupUploadsFolder w = (Inr (), w1)"
    using cleanup_Inr [of w] by (cases "cleanupUploadsFolder w") simp
  with cleanup_keeps_dir [of w]
  have k: "can_mkdir w1 = can_mkdir w" and u: "uploads w1 = None \<longleftrightarrow> uploads w = None"
    by simp_all
  show ?thesis
  proof (cases "uploads w = None")
    case False
    with u obtain es where n: "uploads w1 = Some es" by (cases "uploads w1") auto
    obtain rs w3 where l: "upload_loop lib M w1 [] files = (rs, w3)"
      by (cases "upload_loop lib M w1 [] files")
    have "post_try lib M w (Inr files) = (Inr (Response 200 (FilesBody True rs)), w3)"
      using assms c n l by (simp add: post_try_def)
    with False c l show ?thesis by (auto simp: POST_def)
  next
    case True
    with u have n: "uploads w1 = None" by blast
    show ?thesis
    proof (cases "can_mkdir w")
      case False
      with k have "fs_mkdir w1 = (Inl (Error ''EACCES''), log_event Mkdir w1)"
        by (simp add: fs_mkdir_def)
      then have "post_try lib M w (Inr files) = (Inl (Error ''EACCES''), log_event Mkdir w1)"
        using assms c n by (simp add: post_try_def)
      with True False show ?thesis by (auto simp: POST_def)
    next
      case m: True
      obtain w2 where d: "fs_mkdir w1 = (Inr (), w2)"
        using m k by (simp add: fs_mkdir_def)
      obtain rs w3 where l: "upload_loop lib M w2 [] files = (rs, w3)"
        by (cases "upload_loop lib M w2 [] files")
      have "post_try lib M w (Inr files) = (Inr (Response 200 (FilesBody True rs)), w3)"
        using assms c n d l by (simp add: post_try_def)
      with True m c d l show ?thesis by (auto simp: POST_def)
    qed
  qed
qed



lemma POST_200:
  assumes "fst (POST lib M w (Inr files)) = Response 200 (FilesBody ok rs)"
  shows "ok \<and> files \<noteq> [] \<and> length rs = length files
         \<and> (\<forall>i < length files. \<exists>wi. rs ! i = fst (upload_step lib M wi (files ! i)))"
proof -
  have ne: "files \<noteq> []"
    using assms POST_no_files [of lib M w] by auto
  let ?w2 = "if uploads w = None then snd (fs_mkdir (snd (cleanupUploadsFolder w)))
             else snd (cleanupUploadsFolder w)"
  have "ok \<and> rs = fst (upload_loop lib M ?w2 [] files)"
    using assms POST_files [OF ne, of lib M w] by (auto split: if_splits)
  moreover obtain outs where "fst (upload_loop lib M ?w2 [] files) = [] @ outs"
    and "list_all2 (\<lambda>f r. \<exists>wi. r = fst (upload_step lib M wi f)) files outs"
    using upload_loop_results [of lib M ?w2 "[]" files] by blast
  ultimately have ok: ok
    and l: "list_all2 (\<lambda>f r. \<exists>wi. r = fst (upload_step lib M wi f)) files rs"
    by simp_all
  from l have "length rs = length files"
    by (simp add: list_all2_lengthD)
  moreover have "\<forall>i < length files. \<exists>wi. rs ! i = fst (upload_step lib M wi (files ! i))"
    using l by (simp add: list_all2_conv_all_nth)
  ultimately show ?thesis using ok ne by blast
qed

text \<open>
  C10. The size check comes first: a file that exceeds the maximum and also has a type
  outside the allowed set gets the outcome with the size message, in the loop body and
  at its place in the list a successful response carries.
\<close>

theorem size_check_precedes_type_check:
  "(exceeds (uf_size f) M \<and> uf_type f \<notin> set allowedTypes \<longrightarrow>
      fst (upload_step lib M w f) = Failure (uf_name f) ''File size exceeds limit (10MB)'')
   \<and> (fst (POST lib M w (Inr files)) = Response 200 (FilesBody ok rs) \<longrightarrow>
        length rs = length files
        \<and> (\<forall>i < length files.
              exceeds (uf_size (files ! i)) M \<and> uf_type (files ! i) \<notin> set allowedTypes \<longrightarrow>
              rs ! i = Failure (uf_name (files ! i)) ''File size exceeds limit (10MB)''))"
proof -
  have a: "exceeds (uf_size f) M \<and> uf_type f \<notin> set allowedTypes \<longrightarrow>
      fst (upload_step lib M w f) = Failure (uf_name f) ''File size exceeds limit (10MB)''"
    by (simp add: upload_step_oversize)
  have b: "length rs = length files
        \<and> (\<forall>i < length files.
              exceeds (uf_size (files ! i)) M \<and> uf_type (files ! i) \<notin> set allowedTypes \<longrightarrow>
              rs ! i = Failure (uf_name (files ! i)) ''File size exceeds limit (10MB)'')"
    if p: "fst (POST lib M w (Inr files)) = Response 200 (FilesBody ok rs)"
  proof -
    from POST_200 [OF p] have len: "length rs = length files"
      and each: "\<forall>i < length files. \<exists>wi. rs ! i = fst (upload_step lib M wi (files ! i))"
      by blast+
    have "rs ! i = Failure (uf_name (files ! i)) ''File size exceeds limit (10MB)''"
      if "i < length files" "exceeds (uf_size (files ! i)) M" for i
    proof -
      from each that(1) obtain wi where "rs ! i = fst (upload_step lib M wi (files ! i))"
        by blast
      with that(2) show ?thesis by (simp add: upload_step_oversize)
    qed
    with len show ?thesis by blast
  qed
  from a b show ?thesis by blast
qed

lemma example_oversize_run:
  "fst (POST (example_lib []) default_MAX_FILE_SIZE (example_world [] 5)
          (Inr [example_upload ''big.exe'' 20000000 ''application/x-msdownload'']))
   = Response 200 (FilesBody True [Failure ''big.exe'' ''File size exceeds limit (10MB)''])"
  by (simp add: upload_defs fs_defs example_defs)

theorem size_check_precedes_type_check_witness:
  "exceeds 20000000 default_MAX_FILE_SIZE
   \<and> ''application/x-msdownload'' \<notin> set allowedTypes
   \<and> fst (upload_step (example_lib []) default_MAX_FILE_SIZE (example_world [] 5)
          (example_upload ''big.exe'' 20000000 ''application/x-msdownload''))
     = Failure ''big.exe'' ''File size exceeds limit (10MB)''
   \<and> fst (POST (example_lib []) default_MAX_FILE_SIZE (example_world [] 5)
          (Inr [example_upload ''big.exe'' 20000000 ''application/x-msdownload'']))
     = Response 200 (FilesBody True [Failure ''big.exe'' ''File size exceeds limit (10MB)''])"
proof -
  have h: "exceeds 20000000 default_MAX_FILE_SIZE"
    "''application/x-msdownload'' \<notin> set allowedTypes"
    by (simp_all add: exceeds_def default_MAX_FILE_SIZE_def allowedTypes_def)
  with size_check_precedes_type_check
    [of "example_upload ''big.exe'' 20000000 ''application/x-msdownload''"
        default_MAX_FILE_SIZE "example_lib []" "example_world [] 5"
        "[example_upload ''big.exe'' 20000000 ''application/x-msdownload'']" True
        "[Failure ''big.exe'' ''File size exceeds limit (10MB)'']"]
    example_oversize_run
  show ?thesis by (simp add: example_upload_def)
qed



lemma save_file_fails_iff:
  "isl (fst (save_file lib w f)) \<longleftrightarrow>
     isl (uf_arrayBuffer f) \<or> uploads w = None
     \<or> \<not> can_write w (uuidv4 lib (uuids w) @ extname lib (uf_name f))"
  by (cases "uf_arrayBuffer f"; cases "uploads w")
     (simp_all add: save_file_def fs_writeFile_def Let_def date_now_def split_beta)

text \<open>
  C7, as amended. A request that cannot be read is answered with status 500 and one that
  holds no file with status 400; so is, with status 500, a request with files when the
  upload directory is missing and cannot be created. Every other request is answered
  with status 200, \<open>success: true\<close> and one outcome per file, in order. The outcome of a
  file is a failure exactly when its size exceeds the maximum, or its type is outside the
  allowed set, or saving it fails (reading its bytes throws, or \<open>writeFile\<close> fails).
\<close>

theorem upload_outcomes:
  "fst (POST lib M w (Inl e)) = Response 500 (ErrorBody ''Upload failed'')
   \<and> fst (POST lib M w (Inr [])) = Response 400 (ErrorBody ''No files uploaded'')
   \<and> (files \<noteq> [] \<and> uploads w = None \<and> \<not> can_mkdir w \<longrightarrow>
        fst (POST lib M w (Inr files)) = Response 500 (ErrorBody ''Upload failed''))
   \<and> (files \<noteq> [] \<and> (uploads w \<noteq> None \<or> can_mkdir w) \<longrightarrow>
        (\<exists>rs. fst (POST lib M w (Inr files)) = Response 200 (FilesBody True rs)
           \<and> length rs = length files
           \<and> (\<forall>i < length files. \<exists>wi.
                 rs ! i = fst (upload_step lib M wi (files ! i))
                 \<and> (\<not> success (rs ! i) \<longleftrightarrow>
                      exceeds (uf_size (files ! i)) M
                      \<or> uf_type (files ! i) \<notin> set allowedTypes
                      \<or> isl (fst (save_file lib wi (files ! i)))))))
   \<and> (isl (fst (save_file lib w f)) \<longleftrightarrow>
        isl (uf_arrayBuffer f) \<or> uploads w = None
        \<or> \<not> can_write w (uuidv4 lib (uuids w) @ extname lib (uf_name f)))"
proof -
  have c: "files \<noteq> [] \<and> uploads w = None \<and> \<not> can_mkdir w \<longrightarrow>
        fst (POST lib M w (Inr files)) = Response 500 (ErrorBody ''Upload failed'')"
    by (simp add: POST_files)
  have d: "\<exists>rs. fst (POST lib M w (Inr files)) = Response 200 (FilesBody True rs)
           \<and> length rs = length files
           \<and> (\<forall>i < length files. \<exists>wi.
                 rs ! i = fst (upload_step lib M wi (files ! i))
                 \<and> (\<not> success (rs ! i) \<longleftrightarrow>
                      exceeds (uf_size (files ! i)) M
                      \<or> uf_type (files ! i) \<notin> set allowedTypes
                      \<or> isl (fst (save_file lib wi (files ! i)))))"
    if ne: "files \<noteq> []" and dir: "uploads w \<noteq> None \<or> can_mkdir w"
  proof -
    from dir have "\<not> (uploads w = None \<and> \<not> can_mkdir w)" by blast
    then obtain rs where p: "fst (POST lib M w (Inr files)) = Response 200 (FilesBody True rs)"
      using POST_files [OF ne, of lib M w] by simp
    from POST_200 [OF p] have len: "length rs = length files"
      and each: "\<forall>i < length files. \<exists>wi. rs ! i = fst (upload_step lib M wi (files ! i))"
      by blast+
    have "\<exists>wi. rs ! i = fst (upload_step lib M wi (files ! i))
                 \<and> (\<not> success (rs ! i) \<longleftrightarrow>
                      exceeds (uf_size (files ! i)) M
                      \<or> uf_type (files ! i) \<notin> set allowedTypes
                      \<or> isl (fst (save_file lib wi (files ! i))))"
      if "i < length files" for i
    proof -
      from each that obtain wi where r: "rs ! i = fst (upload_step lib M wi (files ! i))"
        by blast
      then show ?thesis
        using upload_step_failure_iff [of lib M wi "files ! i"] by auto
    qed
    with p len show ?thesis by blast
  qed
  from POST_no_request [of lib M w e] POST_no_files [of lib M w] c d
    save_file_fails_iff [of lib w f]
  show ?thesis by blast
qed

lemma example_mixed_run:
  "fst (POST (example_lib []) default_MAX_FILE_SIZE (example_world [] 5)
          (Inr [example_upload ''big.pdf'' 20000000 ''application/pdf'',
                example_upload ''pic.png'' 10 ''image/png'',
                example_upload ''notes.txt'' 10485760 ''text/plain'']))
   = Response 200 (FilesBody True
       [Failure ''big.pdf'' ''File size exceeds limit (10MB)'',
        Failure ''pic.png'' ''Unsupported file type'',
        Success ''a'' ''notes.txt'' ''notes.txt'' 10485760 ''text/plain'' ''a.txt'' 5])"
  by (simp add: upload_defs fs_defs example_defs)

theorem upload_outcomes_witness:
  "fst (POST (example_lib []) default_MAX_FILE_SIZE (example_world [] 5)
          (Inr [example_upload ''big.pdf'' 20000000 ''application/pdf'',
                example_upload ''pic.png'' 10 ''image/png'',
                example_upload ''notes.txt'' 10485760 ''text/plain'']))
   = Response 200 (FilesBody True
       [Failure ''big.pdf'' ''File size exceeds limit (10MB)'',
        Failure ''pic.png'' ''Unsupported file type'',
        Success ''a'' ''notes.txt'' ''notes.txt'' 10485760 ''text/plain'' ''a.txt'' 5])
   \<and> (\<exists>rs. fst (POST (example_lib []) default_MAX_FILE_SIZE (example_world [] 5)
          (Inr [example_upload ''big.pdf'' 20000000 ''application/pdf'',
                example_upload ''pic.png'' 10 ''image/png'',
                example_upload ''notes.txt'' 10485760 ''text/plain'']))
        = Response 200 (FilesBody True rs) \<and> length rs = 3)"
proof -
  let ?files = "[example_upload ''big.pdf'' 20000000 ''application/pdf'',
                example_upload ''pic.png'' 10 ''image/png'',
                example_upload ''notes.txt'' 10485760 ''text/plain'']"
  have h: "?files \<noteq> [] \<and> (uploads (example_world [] 5) \<noteq> None \<or> can_mkdir (example_world [] 5))"
    by (simp add: example_world_def)
  from upload_outcomes [of "example_lib []" default_MAX_FILE_SIZE "example_world [] 5" _ ?files] h
  have "\<exists>rs. fst (POST (example_lib []) default_MAX_FILE_SIZE (example_world [] 5) (Inr ?files))
        = Response 200 (FilesBody True rs) \<and> length rs = length ?files"
    by blast
  with example_mixed_run show ?thesis by simp
qed

theorem upload_outcomes_counterexample:
  "\<not> exceeds 5 default_MAX_FILE_SIZE
   \<and> ''text/plain'' \<in> set allowedTypes
   \<and> fst (POST (example_lib []) default_MAX_FILE_SIZE
          (example_full_disk (example_world [] 5))
          (Inr [example_upload ''a.txt'' 5 ''text/plain'']))
     = Response 200 (FilesBody True [Failure ''a.txt'' ''Failed to save file''])
   \<and> fst (POST (example_lib []) default_MAX_FILE_SIZE
          (example_no_directory (example_world [] 5))
          (Inr [example_upload ''a.txt'' 5 ''text/plain'']))
     = Response 500 (ErrorBody ''Upload failed'')"
  by (simp add: upload_defs fs_defs example_defs)


section \<open>The sweep\<close>


lemma filter_other_names:
  "n \<notin> fst ` set es \<Longrightarrow> filter (\<lambda>(m, e). m \<noteq> n) es = es"
  by (induction es) auto

lemma cleanup_loop_sweep:
  assumes "uploads w = Some (kept @ es)" and "distinct (map fst (kept @ es))"
    and "\<forall>n \<in> fst ` set es. resolve w n = n"
  shows "uploads (snd (cleanup_loop w (map fst es)))
           = Some (kept @ sweep_result (clock w) (ticks w) es)"
  using assms
proof (induction es arbitrary: w kept)
  case Nil
  then show ?case by simp
next
  case (Cons ne es)
  obtain n e where ne: "ne = (n, e)" by (cases ne)
  from Cons.prems(2) have nk: "n \<notin> fst ` set kept" and nes: "n \<notin> fst ` set es"
    and dk: "distinct (map fst (kept @ es))"
    by (auto simp: ne)
  from Cons.prems(3) have rn: "resolve w n = n" and rs: "\<forall>m \<in> fst ` set es. resolve w m = m"
    by (auto simp: ne)
  have "map_of (kept @ (n, e) # es) n = Some e"
    using nk by (simp add: map_add_Some_iff map_of_eq_None_iff)
  then have look: "lookup_entry w n = Some e"
    using Cons.prems(1) rn by (simp add: lookup_entry_def ne)
  let ?w1 = "log_event (Stat n) w"
  let ?w2 = "?w1\<lparr>ticks := Suc (ticks w)\<rparr>"
  show ?case
  proof (cases "statable e")
    case False
    then have "fs_stat w n = (Inl (Error ''ENOENT''), ?w1)"
      by (simp add: fs_stat_def look)
    with False Cons.prems(1) show ?thesis
      by (simp add: ne log_event_def)
  next
    case s: True
    have st: "fs_stat w n = (Inr (mtime e), ?w1)"
      using s by (simp add: fs_stat_def look)
    have dn: "date_now ?w1 = (clock w (ticks w), ?w2)"
      by (simp add: date_now_def log_event_def)
    have look2: "lookup_entry ?w2 n = Some e"
      using look by (cases "uploads w") (simp_all add: lookup_entry_def log_event_def)
    show ?thesis
    proof (cases "mtime e < clock w (ticks w) - 3600000")
      case False
      have u2: "uploads ?w2 = Some ((kept @ [(n, e)]) @ es)"
        using Cons.prems(1) by (simp add: log_event_def ne)
      have d2: "distinct (map fst ((kept @ [(n, e)]) @ es))"
        using Cons.prems(2) by (simp add: ne)
      have r2: "\<forall>m \<in> fst ` set es. resolve ?w2 m = m"
        using rs by (simp add: log_event_def)
      have "uploads (snd (cleanup_loop ?w2 (map fst es)))
            = Some ((kept @ [(n, e)]) @ sweep_result (clock ?w2) (ticks ?w2) es)"
        using u2 d2 r2 by (rule Cons.IH)
      with False s st dn show ?thesis
        by (simp add: ne log_event_def)
    next
      case True
      show ?thesis
      proof (cases "removable e")
        case False
        have "fs_unlink ?w2 n = (Inl (Error ''EPERM''), log_event (Unlink n) ?w2)"
          using look2 False by (simp add: fs_unlink_def)
        with True False s st dn Cons.prems(1) show ?thesis
          by (simp add: ne log_event_def)
      next
        case r: True
        let ?w3 = "remove_entry n (log_event (Unlink n) ?w2)"
        have un: "fs_unlink ?w2 n = (Inr (), ?w3)"
          using look2 r by (simp add: fs_unlink_def)
        have "filter (\<lambda>(m, x). m \<noteq> n) (kept @ (n, e) # es) = kept @ es"
          using nk nes by (simp add: filter_other_names)
        then have u3: "uploads ?w3 = Some (kept @ es)"
          using Cons.prems(1) rn by (simp add: remove_entry_def log_event_def ne)
        have r3: "\<forall>m \<in> fst ` set es. resolve ?w3 m = m"
          using rs by (simp add: remove_entry_def log_event_def)
        have "uploads (snd (cleanup_loop ?w3 (map fst es)))
              = Some (kept @ sweep_result (clock ?w3) (ticks ?w3) es)"
          using u3 dk r3 by (rule Cons.IH)
        with True r s st dn un show ?thesis
          by (simp add: ne remove_entry_def log_event_def)
      qed
    qed
  qed
qed

lemma cleanup_no_listing:
  assumes "uploads w = Some es" and "\<not> can_readdir w"
  shows "uploads (snd (cleanupUploadsFolder w)) = Some es"
  using assms by (simp add: cleanupUploadsFolder_def fs_readdir_def log_event_def)

lemma cleanup_sweep:
  assumes "uploads w = Some es" and "can_readdir w" and "distinct (map fst es)"
    and "\<forall>n \<in> fst ` set es. resolve w n = n"
  shows "uploads (snd (cleanupUploadsFolder w)) = Some (sweep_result (clock w) (ticks w) es)"
proof -
  let ?w1 = "log_event Readdir w"
  have "uploads (snd (cleanup_loop ?w1 (map fst es)))
        = Some ([] @ sweep_result (clock ?w1) (ticks ?w1) es)"
    using assms by (intro cleanup_loop_sweep) (simp_all add: log_event_def)
  then have l: "uploads (snd (cleanup_loop ?w1 (map fst es)))
        = Some (sweep_result (clock w) (ticks w) es)"
    by (simp add: log_event_def)
  obtain r w2 where c: "cleanup_loop ?w1 (map fst es) = (r, w2)"
    by (cases "cleanup_loop ?w1 (map fst es)")
  have "snd (cleanupUploadsFolder w) = w2"
    using assms(1,2) c by (cases r) (simp_all add: cleanupUploadsFolder_def fs_readdir_def)
  with l c show ?thesis by simp
qed

lemma sweep_result_subset: "set (sweep_result clk t es) \<subseteq> set es"
  by (induction clk t es rule: sweep_result.induct) auto

text \<open>
  The sweep up to its first failure: of the first \<open>k\<close> entries, none of which fails, those
  that are not expired at their own clock reading are left; the entries from the \<open>k\<close>-th
  on, where the sweep fails or the listing ends, are all left.
\<close>

lemma sweep_result_first_failure:
  "k \<le> length es
   \<Longrightarrow> \<forall>j < k. \<not> sweep_fails (clk (t + j)) (snd (es ! j))
   \<Longrightarrow> k < length es \<longrightarrow> sweep_fails (clk (t + k)) (snd (es ! k))
   \<Longrightarrow> sweep_result clk t es
       = map snd (filter (\<lambda>(j, x). \<not> expired (clk j) (snd x)) (enumerate t (take k es)))
         @ drop k es"
proof (induction clk t es arbitrary: k rule: sweep_result.induct)
  case (1 clk t)
  then show ?case by simp
next
  case (2 clk t n e es)
  show ?case
  proof (cases k)
    case 0
    with "2.prems"(3) have "sweep_fails (clk t) e" by simp
    with 0 show ?thesis by (auto simp: sweep_fails_def expired_def)
  next
    case (Suc k')
    with "2.prems"(2) have ok: "\<not> sweep_fails (clk t) e"
      by (auto dest!: spec [of _ 0])
    have k': "k' \<le> length es" using "2.prems"(1) Suc by simp
    have pre: "\<forall>j < k'. \<not> sweep_fails (clk (Suc t + j)) (snd (es ! j))"
    proof (intro allI impI)
      fix j assume "j < k'"
      with "2.prems"(2) Suc show "\<not> sweep_fails (clk (Suc t + j)) (snd (es ! j))"
        by (auto dest!: spec [of _ "Suc j"])
    qed
    have at: "k' < length es \<longrightarrow> sweep_fails (clk (Suc t + k')) (snd (es ! k'))"
      using "2.prems"(3) Suc by simp
    from ok have s: "statable e" and r: "expired (clk t) e \<longrightarrow> removable e"
      by (auto simp: sweep_fails_def)
    show ?thesis
    proof (cases "mtime e < clk t - 3600000")
      case True
      with r have rm: "removable e" by (simp add: expired_def)
      have "sweep_result clk (Suc t) es
            = map snd (filter (\<lambda>(j, x). \<not> expired (clk j) (snd x)) (enumerate (Suc t) (take k' es)))
              @ drop k' es"
        using s True rm k' pre at by (intro "2.IH"(1)) simp_all
      with s True rm Suc show ?thesis by (simp add: expired_def)
    next
      case False
      have "sweep_result clk (Suc t) es
            = map snd (filter (\<lambda>(j, x). \<not> expired (clk j) (snd x)) (enumerate (Suc t) (take k' es)))
              @ drop k' es"
        using s False k' pre at by (intro "2.IH"(2)) simp_all
      with s False Suc show ?thesis by (simp add: expired_def)
    qed
  qed
qed

lemma sweep_result_retains:
  "i < length es \<Longrightarrow> \<not> expired (clk (t + i)) (snd (es ! i))
     \<Longrightarrow> es ! i \<in> set (sweep_result clk t es)"
proof (induction clk t es arbitrary: i rule: sweep_result.induct)
  case (1 clk t)
  then show ?case by simp
next
  case (2 clk t n e es)
  show ?case
  proof (cases i)
    case 0
    with "2.prems" show ?thesis by (simp add: expired_def)
  next
    case (Suc j)
    with "2.prems" have j: "j < length es" "\<not> expired (clk (Suc t + j)) (snd (es ! j))"
      by simp_all
    show ?thesis
    proof (cases "statable e")
      case False
      with j Suc show ?thesis by simp
    next
      case s: True
      show ?thesis
      proof (cases "mtime e < clk t - 3600000")
        case True
        show ?thesis
        proof (cases "removable e")
          case True
          with s \<open>mtime e < clk t - 3600000\<close> "2.IH"(1) [OF _ _ _ j] Suc show ?thesis by simp
        next
          case False
          with s \<open>mtime e < clk t - 3600000\<close> j Suc show ?thesis by simp
        qed
      next
        case False
        with s "2.IH"(2) [OF _ _ j] Suc show ?thesis by simp
      qed
    qed
  qed
qed

lemma sweep_result_deletes:
  "i < length es \<Longrightarrow> distinct (map fst es)
     \<Longrightarrow> \<forall>j \<le> i. \<not> sweep_fails (clk (t + j)) (snd (es ! j))
     \<Longrightarrow> expired (clk (t + i)) (snd (es ! i))
     \<Longrightarrow> fst (es ! i) \<notin> fst ` set (sweep_result clk t es)"
proof (induction clk t es arbitrary: i rule: sweep_result.induct)
  case (1 clk t)
  then show ?case by simp
next
  case (2 clk t n e es)
  from "2.prems"(2) have d: "distinct (map fst es)" and nn: "n \<notin> fst ` set es" by auto
  from "2.prems"(3) have ok: "\<not> sweep_fails (clk t) e" by (auto dest!: spec [of _ 0])
  then have s: "statable e" and r: "expired (clk t) e \<longrightarrow> removable e"
    by (auto simp: sweep_fails_def)
  show ?case
  proof (cases i)
    case 0
    with "2.prems" r have old: "mtime e < clk t - 3600000" and rm: "removable e"
      by (auto simp: expired_def)
    have "n \<notin> fst ` set (sweep_result clk (Suc t) es)"
      using nn sweep_result_subset [of clk "Suc t" es] by auto
    with 0 old rm s show ?thesis by simp
  next
    case (Suc j)
    with "2.prems" have j: "j < length es"
      and jold: "expired (clk (Suc t + j)) (snd (es ! j))"
      by simp_all
    have jr: "\<forall>k \<le> j. \<not> sweep_fails (clk (Suc t + k)) (snd (es ! k))"
    proof (intro allI impI)
      fix k assume "k \<le> j"
      with "2.prems"(3) Suc show "\<not> sweep_fails (clk (Suc t + k)) (snd (es ! k))"
        by (auto dest!: spec [of _ "Suc k"])
    qed
    have ne: "fst (es ! j) \<noteq> n"
      using nn j by (metis image_eqI nth_mem)
    show ?thesis
    proof (cases "mtime e < clk t - 3600000")
      case True
      with r have rm: "removable e" by (simp add: expired_def)
      have "fst (es ! j) \<notin> fst ` set (sweep_result clk (Suc t) es)"
        using s True rm j d jr jold by (intro "2.IH"(1)) simp_all
      with s True rm Suc show ?thesis by simp
    next
      case False
      have "fst (es ! j) \<notin> fst ` set (sweep_result clk (Suc t) es)"
        using s False j d jr jold by (intro "2.IH"(2)) simp_all
      with s False Suc ne show ?thesis by simp
    qed
  qed
qed

lemma sweep_result_filter:
  "\<forall>k. clk (t + k) = T \<Longrightarrow> \<forall>(n, e) \<in> set es. statable e \<and> removable e
     \<Longrightarrow> sweep_result clk t es = filter (\<lambda>(n, e). \<not> expired T e) es"
proof (induction clk t es rule: sweep_result.induct)
  case (1 clk t)
  then show ?case by simp
next
  case (2 clk t n e es)
  from "2.prems"(1) have c0: "clk t = T" by (metis add_0_right)
  from "2.prems"(1) have cs: "\<forall>k. clk (Suc t + k) = T"
    by (metis add_Suc_shift)
  from "2.prems"(2) have s: "statable e" and r: "removable e"
    and rs: "\<forall>(n, e) \<in> set es. statable e \<and> removable e"
    by auto
  show ?case
  proof (cases "mtime e < clk t - 3600000")
    case True
    have "sweep_result clk (Suc t) es = filter (\<lambda>(n, e). \<not> expired T e) es"
      using s True r cs rs by (intro "2.IH"(1)) simp_all
    with s r True c0 show ?thesis by (simp add: expired_def)
  next
    case False
    have "sweep_result clk (Suc t) es = filter (\<lambda>(n, e). \<not> expired T e) es"
      using s False cs rs by (intro "2.IH"(2)) simp_all
    with s False c0 show ?thesis by (simp add: expired_def)
  qed
qed



text \<open>
  C8, as amended. The sweep never throws, and it does nothing when the directory is
  missing or cannot be listed. Otherwise it examines the files in listing order, each
  against the clock reading taken when it is examined, up to the first file \<open>k\<close> at which
  it fails (\<open>stat\<close> fails, or the file is expired and \<open>unlink\<close> fails): of the files before
  \<open>k\<close>, those more than 3,600,000 ms older than their reading are deleted and the others
  retained; file \<open>k\<close> and every file after it are left in place. So a file that is not
  more than 3,600,000 ms older than its reading is retained in every case, and an
  expired file is deleted provided the sweep fails at no file up to and including it.
  When no file fails and the clock reads \<open>T\<close> throughout, what is left is exactly the
  files with \<open>mtime \<ge> T - 3600000\<close>.
\<close>

theorem sweep_deletes_expired:
  "fst (cleanupUploadsFolder w) = Inr ()
   \<and> (uploads w = None \<longrightarrow> uploads (snd (cleanupUploadsFolder w)) = None)
   \<and> (uploads w = Some es \<and> \<not> can_readdir w \<longrightarrow>
        uploads (snd (cleanupUploadsFolder w)) = Some es)
   \<and> (uploads w = Some es \<and> can_readdir w \<and> distinct (map fst es)
        \<and> (\<forall>n \<in> fst ` set es. resolve w n = n) \<longrightarrow>
        (\<exists>after. uploads (snd (cleanupUploadsFolder w)) = Some after
           \<and> set after \<subseteq> set es
           \<and> (k \<le> length es
                \<and> (\<forall>j < k. \<not> sweep_fails (clock w (ticks w + j)) (snd (es ! j)))
                \<and> (k < length es \<longrightarrow> sweep_fails (clock w (ticks w + k)) (snd (es ! k)))
                \<longrightarrow> after
                    = map snd (filter (\<lambda>(j, x). \<not> expired (clock w j) (snd x))
                                 (enumerate (ticks w) (take k es)))
                      @ drop k es)
           \<and> (\<forall>i < length es.
                 (\<not> expired (clock w (ticks w + i)) (snd (es ! i)) \<longrightarrow> es ! i \<in> set after)
                 \<and> (expired (clock w (ticks w + i)) (snd (es ! i))
                    \<and> (\<forall>j \<le> i. \<not> sweep_fails (clock w (ticks w + j)) (snd (es ! j)))
                    \<longrightarrow> fst (es ! i) \<notin> fst ` set after))
           \<and> ((\<forall>n. clock w (ticks w + n) = T) \<and> (\<forall>(n, e) \<in> set es. statable e \<and> removable e)
                 \<longrightarrow> after = filter (\<lambda>(n, e). \<not> expired T e) es)))"
proof -
  have none: "uploads w = None \<longrightarrow> uploads (snd (cleanupUploadsFolder w)) = None"
    using cleanup_keeps_dir [of w] by blast
  have nolist: "uploads w = Some es \<and> \<not> can_readdir w \<longrightarrow>
        uploads (snd (cleanupUploadsFolder w)) = Some es"
    using cleanup_no_listing [of w es] by blast
  have main: "\<exists>after. uploads (snd (cleanupUploadsFolder w)) = Some after
           \<and> set after \<subseteq> set es
           \<and> (k \<le> length es
                \<and> (\<forall>j < k. \<not> sweep_fails (clock w (ticks w + j)) (snd (es ! j)))
                \<and> (k < length es \<longrightarrow> sweep_fails (clock w (ticks w + k)) (snd (es ! k)))
                \<longrightarrow> after
                    = map snd (filter (\<lambda>(j, x). \<not> expired (clock w j) (snd x))
                                 (enumerate (ticks w) (take k es)))
                      @ drop k es)
           \<and> (\<forall>i < length es.
                 (\<not> expired (clock w (ticks w + i)) (snd (es ! i)) \<longrightarrow> es ! i \<in> set after)
                 \<and> (expired (clock w (ticks w + i)) (snd (es ! i))
                    \<and> (\<forall>j \<le> i. \<not> sweep_fails (clock w (ticks w + j)) (snd (es ! j)))
                    \<longrightarrow> fst (es ! i) \<notin> fst ` set after))
           \<and> ((\<forall>n. clock w (ticks w + n) = T) \<and> (\<forall>(n, e) \<in> set es. statable e \<and> removable e)
                 \<longrightarrow> after = filter (\<lambda>(n, e). \<not> expired T e) es)"
    if u: "uploads w = Some es" and l: "can_readdir w" and d: "distinct (map fst es)"
      and r: "\<forall>n \<in> fst ` set es. resolve w n = n"
  proof -
    let ?after = "sweep_result (clock w) (ticks w) es"
    have a: "uploads (snd (cleanupUploadsFolder w)) = Some ?after"
      using u l d r by (rule cleanup_sweep)
    have b: "set ?after \<subseteq> set es"
      by (rule sweep_result_subset)
    have c: "k \<le> length es
                \<and> (\<forall>j < k. \<not> sweep_fails (clock w (ticks w + j)) (snd (es ! j)))
                \<and> (k < length es \<longrightarrow> sweep_fails (clock w (ticks w + k)) (snd (es ! k)))
                \<longrightarrow> ?after
                    = map snd (filter (\<lambda>(j, x). \<not> expired (clock w j) (snd x))
                                 (enumerate (ticks w) (take k es)))
                      @ drop k es"
      using sweep_result_first_failure [of k es "clock w" "ticks w"] by blast
    have e: "\<forall>i < length es.
                 (\<not> expired (clock w (ticks w + i)) (snd (es ! i)) \<longrightarrow> es ! i \<in> set ?after)
                 \<and> (expired (clock w (ticks w + i)) (snd (es ! i))
                    \<and> (\<forall>j \<le> i. \<not> sweep_fails (clock w (ticks w + j)) (snd (es ! j)))
                    \<longrightarrow> fst (es ! i) \<notin> fst ` set ?after)"
      using sweep_result_retains [of _ es "clock w" "ticks w"]
        sweep_result_deletes [of _ es "clock w" "ticks w", OF _ d]
      by blast
    have f: "(\<forall>n. clock w (ticks w + n) = T) \<and> (\<forall>(n, e) \<in> set es. statable e \<and> removable e)
                 \<longrightarrow> ?after = filter (\<lambda>(n, e). \<not> expired T e) es"
      using sweep_result_filter [of "clock w" "ticks w" T es] by blast
    from a b c e f show ?thesis by blast
  qed
  from cleanup_Inr [of w] none nolist main show ?thesis by blast
qed

theorem sweep_deletes_expired_witness:
  "uploads (snd (cleanupUploadsFolder
        (example_world [(''old'', example_entry ''x'' 0 True),
                        (''edge'', example_entry ''y'' 1 True),
                        (''link'', example_dangling 0),
                        (''late'', example_entry ''z'' 0 True)] 3600001)))
   = Some [(''edge'', example_entry ''y'' 1 True),
           (''link'', example_dangling 0),
           (''late'', example_entry ''z'' 0 True)]"
proof -
  let ?es = "[(''old'', example_entry ''x'' 0 True), (''edge'', example_entry ''y'' 1 True),
              (''link'', example_dangling 0), (''late'', example_entry ''z'' 0 True)]"
  let ?w = "example_world ?es 3600001"
  have h: "uploads ?w = Some ?es \<and> can_readdir ?w \<and> distinct (map fst ?es)
           \<and> (\<forall>n \<in> fst ` set ?es. resolve ?w n = n)"
    by (simp add: example_world_def example_resolve_def)
  have k: "2 \<le> length ?es
           \<and> (\<forall>j < 2. \<not> sweep_fails (clock ?w (ticks ?w + j)) (snd (?es ! j)))
           \<and> (2 < length ?es \<longrightarrow> sweep_fails (clock ?w (ticks ?w + 2)) (snd (?es ! 2)))"
    by (simp add: example_world_def example_entry_def example_dangling_def sweep_fails_def
        expired_def numeral_2_eq_2 All_less_Suc)
  from sweep_deletes_expired [of ?w ?es 2] h k
  obtain after where "uploads (snd (cleanupUploadsFolder ?w)) = Some after"
    and "after = map snd (filter (\<lambda>(j, x). \<not> expired (clock ?w j) (snd x))
                            (enumerate (ticks ?w) (take 2 ?es))) @ drop 2 ?es"
    by blast
  then show ?thesis
    by (simp add: example_world_def example_entry_def expired_def)
qed

theorem sweep_stops_at_failure_counterexample:
  "mtime (example_entry ''y'' 0 True) < 3600001 - 3600000
   \<and> fst (cleanupUploadsFolder
        (example_world [(''a'', example_entry ''x'' 0 False),
                        (''b'', example_entry ''y'' 0 True)] 3600001)) = Inr ()
   \<and> uploads (snd (cleanupUploadsFolder
        (example_world [(''a'', example_entry ''x'' 0 False),
                        (''b'', example_entry ''y'' 0 True)] 3600001)))
     = Some [(''a'', example_entry ''x'' 0 False), (''b'', example_entry ''y'' 0 True)]"
  by (simp add: cleanupUploadsFolder_def fs_defs example_defs)


section \<open>Paths are resolved\<close>


text \<open>
  A path with a leading \<open>./\<close> denotes the same file: it is read, analysed and deleted.
\<close>

lemma example_dot_path_run:
  "fst (processDocumentAction (example_lib ''hello'')
      (example_world [(''f'', example_entry ''one two   three'' 0 True)] 5)
      (example_file ''./f'' ''text/plain''))
   = Inr \<lparr>da_id = ''id-./f'', da_fileName = ''doc-./f'',
          da_fileType = ''text/plain'', da_processingTime = 0,
          da_textContent = ''one two   three'', da_wordCount = 3,
          da_pageCount = Some 1,
          da_sentiment = Some (JStr ''Analysis completed''),
          da_topics = [JStr ''Document analysis''],
          da_summary = JStr ''Document processed successfully'',
          da_entities = [],
          da_keyInsights = [JStr ''Document contains valuable content''],
          da_analyzedAt = 5, da_confidence = JNum (7 / 10)\<rparr>
   \<and> uploads (snd (processDocumentAction (example_lib ''hello'')
      (example_world [(''f'', example_entry ''one two   three'' 0 True)] 5)
      (example_file ''./f'' ''text/plain''))) = Some []"
  by (simp add: run_defs fs_defs example_defs wordCount_def split_ws_def estimatePageCount_div)

end
